theory Spec2Isabelle
  imports Main "HOL-Library.FSet"
begin

section \<open>Effects and HTTP responses\<close>

text \<open>
  The scripts talk to the outside world through \<^verbatim>\<open>requests.get\<close>,
  \<^verbatim>\<open>time.sleep\<close> and \<^verbatim>\<open>print\<close>. A run is modelled with the list of
  responses the server gives, in the order the requests are made, and it
  produces the list of effects it performs, in order. A loop that needs a
  response after the last one of the list has not returned: its value is \<open>None\<close>.
\<close>

text \<open>The lines printed by the fetch functions, with the values formatted into them.\<close>

datatype line =
    Fetching_segments                \<comment> \<open>\<^verbatim>\<open>Fetching segments...\<close>\<close>
  | Fetching_profiles string         \<comment> \<open>\<^verbatim>\<open>  Fetching profiles from '{segment_name}'...\<close>\<close>
  | Rate_limited_waiting             \<comment> \<open>\<^verbatim>\<open>    Rate limited, waiting...\<close>\<close>
  | Error_status int                 \<comment> \<open>\<^verbatim>\<open>Error: {response.status_code}\<close>\<close>
  | Profiles_progress nat            \<comment> \<open>\<^verbatim>\<open>    {len(profile_ids):,} profiles...\<close>\<close>
  | Profiles_total nat               \<comment> \<open>\<^verbatim>\<open>    Total: {len(profile_ids):,} profiles\<close>\<close>
  | Fetching_revenue string          \<comment> \<open>\<^verbatim>\<open>Fetching revenue for: {campaign_name[:40]}...\<close>\<close>
                                     \<comment> \<open>the argument is \<^verbatim>\<open>campaign_name\<close>; the line shows its first 40 characters\<close>
  | Rate_limited_waiting_30s         \<comment> \<open>\<^verbatim>\<open>Rate limited, waiting 30s...\<close>\<close>
  | Revenue_orders rat rat           \<comment> \<open>\<^verbatim>\<open>${revenue:,.2f} ({orders} orders)\<close>\<close>

text \<open>
  The query parameters of a request: \<open>None\<close> for \<^verbatim>\<open>params=None\<close>. The headers are
  the same constant on every request and are left out.
\<close>

type_synonym params = "(string \<times> nat) list"

datatype event =
    Get string "params option"       \<comment> \<open>\<^verbatim>\<open>requests.get(url, headers=HEADERS, params=...)\<close>\<close>
  | Post string                      \<comment> \<open>\<^verbatim>\<open>requests.post(url, headers=HEADERS, json=payload)\<close>\<close>
  | Sleep rat                        \<comment> \<open>\<^verbatim>\<open>time.sleep(seconds)\<close>\<close>
  | Print line

text \<open>
  A decoded page \<^verbatim>\<open>{"data": [...], "links": {"next": ...}}\<close>. Each of the keys may
  be absent (\<open>None\<close>); \<^verbatim>\<open>"next": null\<close> and an absent \<^verbatim>\<open>next\<close> both give Python's
  \<^verbatim>\<open>None\<close> under \<^verbatim>\<open>.get("next")\<close>. The type fixes the shape the code relies on for
  the keys that are present: \<^verbatim>\<open>data\<close> is a list of records, \<^verbatim>\<open>links\<close> is an object.
\<close>

record links =
  links_next :: "string option"

record 'a page =
  page_data :: "'a list option"
  page_links :: "links option"

record 'a response =
  status_code :: int
  json :: "'a page"

text \<open>\<^verbatim>\<open>data.get("data", [])\<close> and \<^verbatim>\<open>data.get("links", {}).get("next")\<close>.\<close>

definition get_data :: "'a page \<Rightarrow> 'a list" where
  "get_data data = (case page_data data of None \<Rightarrow> [] | Some d \<Rightarrow> d)"

definition get_next :: "'a page \<Rightarrow> string option" where
  "get_next data = (case page_links data of None \<Rightarrow> None | Some l \<Rightarrow> links_next l)"

text \<open>Python's truth value of \<^verbatim>\<open>url\<close>: \<^verbatim>\<open>None\<close> and the empty string are false.\<close>

fun truthy :: "string option \<Rightarrow> bool" where
  "truthy None = False"
| "truthy (Some u) = (u \<noteq> [])"

section \<open>Fetching the segments (analyze\_segments.py, get\_all\_segments)\<close>

text \<open>An element of \<^verbatim>\<open>data\<close>: \<^verbatim>\<open>{"id": ..., "attributes": {"name": ...}}\<close>, the name optional.\<close>

record raw_segment =
  raw_id :: string
  raw_name :: "string option"

text \<open>An element of the list returned: the dictionary \<^verbatim>\<open>{"id": ..., "name": ...}\<close>.\<close>

record segment =
  seg_id :: string
  seg_name :: string

text \<open>
  \<^verbatim>\<open>
  segments = []
  url = f"{BASE_URL}/segments/"
  while url:
      response = requests.get(url, headers=HEADERS)
      if response.status_code != 200:
          print(f"Error: {response.status_code}")
          return segments
      data = response.json()
      for segment in data.get("data", []):
          segments.append({"id": segment["id"],
                           "name": segment["attributes"].get("name", "")})
      url = data.get("links", {}).get("next")
      if url:
          time.sleep(0.3)
  return segments
  \<close>
  The model pairs the list returned with the effects of the call.
\<close>

definition to_segment :: "raw_segment \<Rightarrow> segment" where
  "to_segment s =
     \<lparr> seg_id = raw_id s, seg_name = (case raw_name s of None \<Rightarrow> [] | Some n \<Rightarrow> n) \<rparr>"

fun segments_loop ::
  "string option \<Rightarrow> segment list \<Rightarrow> event list \<Rightarrow> raw_segment response list
     \<Rightarrow> (segment list \<times> event list) option" where
  "segments_loop url segments tr [] =
     (if truthy url then None else Some (segments, tr))"
| "segments_loop url segments tr (response # rs) =
     (case url of
        None \<Rightarrow> Some (segments, tr)
      | Some u \<Rightarrow>
          if u = [] then Some (segments, tr)
          else
            let tr = tr @ [Get u None] in
            if status_code response \<noteq> 200
            then Some (segments, tr @ [Print (Error_status (status_code response))])
            else
              let data = json response;
                  segments = segments @ map to_segment (get_data data);
                  url = get_next data;
                  tr = (if truthy url then tr @ [Sleep (3 / 10)] else tr)
              in segments_loop url segments tr rs)"

definition get_all_segments ::
  "string \<Rightarrow> raw_segment response list \<Rightarrow> (segment list \<times> event list) option" where
  "get_all_segments BASE_URL rs =
     segments_loop (Some (BASE_URL @ ''/segments/'')) [] [Print Fetching_segments] rs"

section \<open>Fetching the profiles of a segment (analyze\_segments.py, get\_segment\_profile\_ids)\<close>

record profile =
  profile_id :: string

text \<open>
  \<^verbatim>\<open>
  profile_ids = set()
  url = f"{BASE_URL}/segments/{segment_id}/profiles/"
  params = {"page[size]": 100}
  while url and len(profile_ids) < max_profiles:
      response = requests.get(url, headers=HEADERS,
                              params=params if "?" not in url else None)
      if response.status_code == 429:
          print("    Rate limited, waiting...")
          time.sleep(30)
          continue
      if response.status_code != 200:
          print(f"    Error: {response.status_code}")
          break
      data = response.json()
      for profile in data.get("data", []):
          profile_ids.add(profile["id"])
      if len(profile_ids) % 1000 == 0 and len(profile_ids) > 0:
          print(f"    {len(profile_ids):,} profiles...")
      url = data.get("links", {}).get("next")
      if url:
          time.sleep(RATE_LIMIT_DELAY)
  print(f"    Total: {len(profile_ids):,} profiles")
  return profile_ids
  \<close>
  \<^verbatim>\<open>RATE_LIMIT_DELAY\<close> and \<^verbatim>\<open>BASE_URL\<close> come from the configuration and are
  arguments of the model. \<open>max_profiles\<close> is a natural number; a negative
  \<^verbatim>\<open>max_profiles\<close> stops the loop before its first iteration, as 0 does. The
  loop returns the variables it leaves behind: the cursor \<open>url\<close>, the set and the
  effects so far. The function returns the set; the model pairs it with the
  effects of the call.
\<close>

definition page_params :: params where
  "page_params = [(''page[size]'', 100)]"

definition request_params :: "string \<Rightarrow> params option" where
  "request_params url = (if CHR ''?'' \<notin> set url then Some page_params else None)"

definition add_profiles :: "string fset \<Rightarrow> profile list \<Rightarrow> string fset" where
  "add_profiles profile_ids ps = foldl (\<lambda>ids p. finsert (profile_id p) ids) profile_ids ps"

fun profiles_loop ::
  "nat \<Rightarrow> rat \<Rightarrow> string option \<Rightarrow> string fset \<Rightarrow> event list \<Rightarrow> profile response list
     \<Rightarrow> (string option \<times> string fset \<times> event list) option" where
  "profiles_loop max_profiles delay url profile_ids tr [] =
     (if truthy url \<and> fcard profile_ids < max_profiles then None
      else Some (url, profile_ids, tr))"
| "profiles_loop max_profiles delay url profile_ids tr (response # rs) =
     (case url of
        None \<Rightarrow> Some (url, profile_ids, tr)
      | Some u \<Rightarrow>
          if u = [] \<or> \<not> fcard profile_ids < max_profiles then Some (url, profile_ids, tr)
          else
            let tr = tr @ [Get u (request_params u)] in
            if status_code response = 429
            then profiles_loop max_profiles delay url profile_ids
                   (tr @ [Print Rate_limited_waiting, Sleep 30]) rs
            else if status_code response \<noteq> 200
            then Some (url, profile_ids, tr @ [Print (Error_status (status_code response))])
            else
              let data = json response;
                  profile_ids = add_profiles profile_ids (get_data data);
                  tr = (if fcard profile_ids mod 1000 = 0 \<and> fcard profile_ids > 0
                        then tr @ [Print (Profiles_progress (fcard profile_ids))] else tr);
                  url = get_next data;
                  tr = (if truthy url then tr @ [Sleep delay] else tr)
              in profiles_loop max_profiles delay url profile_ids tr rs)"

text \<open>
  The effects of one iteration that received a 200: the request, the progress line
  and the pause before the next page. \<open>ids\<close> is the set after the insertions and
  \<open>nx\<close> the new cursor.
\<close>

definition page_trace :: "rat \<Rightarrow> string \<Rightarrow> string fset \<Rightarrow> string option \<Rightarrow> event list" where
  "page_trace delay u ids nx =
     [Get u (request_params u)]
     @ (if fcard ids mod 1000 = 0 \<and> fcard ids > 0
        then [Print (Profiles_progress (fcard ids))] else [])
     @ (if truthy nx then [Sleep delay] else [])"

text \<open>The records of the pages among \<open>rs\<close> that came with status 200, in order.\<close>

definition fetched :: "'a response list \<Rightarrow> 'a list" where
  "fetched rs =
     concat (map (\<lambda>r. get_data (json r)) (filter (\<lambda>r. status_code r = 200) rs))"

text \<open>The requests among the effects, in order.\<close>

fun requests :: "event list \<Rightarrow> (string \<times> params option) list" where
  "requests [] = []"
| "requests (Get u ps # es) = (u, ps) # requests es"
| "requests (e # es) = requests es"

definition get_segment_profile_ids ::
  "string \<Rightarrow> rat \<Rightarrow> string \<Rightarrow> string \<Rightarrow> nat \<Rightarrow> profile response list
     \<Rightarrow> (string fset \<times> event list) option" where
  "get_segment_profile_ids BASE_URL RATE_LIMIT_DELAY segment_id segment_name max_profiles rs =
     (case profiles_loop max_profiles RATE_LIMIT_DELAY
             (Some (BASE_URL @ ''/segments/'' @ segment_id @ ''/profiles/'')) {||}
             [Print (Fetching_profiles segment_name)] rs of
        None \<Rightarrow> None
      | Some (url, profile_ids, tr) \<Rightarrow>
          Some (profile_ids, tr @ [Print (Profiles_total (fcard profile_ids))]))"

section \<open>Segment lookup by name (analyze\_segments.py, find\_segment)\<close>

text \<open>
  Python's \<^verbatim>\<open>a in b\<close> on two strings: \<open>a\<close> occurs in \<open>b\<close> as a contiguous run.
\<close>

fun str_startswith :: "string \<Rightarrow> string \<Rightarrow> bool" where
  "str_startswith b [] = True"
| "str_startswith [] (x # a) = False"
| "str_startswith (y # b) (x # a) = (x = y \<and> str_startswith b a)"

fun str_in :: "string \<Rightarrow> string \<Rightarrow> bool" where
  "str_in a [] = (a = [])"
| "str_in a (y # b) = (str_startswith (y # b) a \<or> str_in a b)"

text \<open>
  \<^verbatim>\<open>str.lower\<close> is Python's built-in lower-casing of a Unicode string. It is
  not part of the repository, so \<open>find_segment\<close> takes it as its first argument
  \<open>lower\<close>; every theorem below holds for any such function. The scenarios are
  evaluated with \<open>ascii_lower\<close>, with which \<^verbatim>\<open>str.lower\<close> agrees on ASCII names.
\<close>

definition ascii_lower_char :: "char \<Rightarrow> char" where
  "ascii_lower_char c =
     (case map_of (zip ''ABCDEFGHIJKLMNOPQRSTUVWXYZ'' ''abcdefghijklmnopqrstuvwxyz'') c of
        Some l \<Rightarrow> l
      | None \<Rightarrow> c)"

definition ascii_lower :: "string \<Rightarrow> string" where
  "ascii_lower s = map ascii_lower_char s"

text \<open>
  \<^verbatim>\<open>
  def find_segment(segments, search):
      search_lower = search.lower()
      for s in segments:
          if s["name"].lower() == search_lower:
              return s
      matches = [s for s in segments if search_lower in s["name"].lower()]
      if len(matches) == 1:
          return matches[0]
      elif len(matches) > 1:
          (print the candidates)
          return None
      return None
  \<close>
  The first loop returns the first element that satisfies the test, which is
  \<^const>\<open>List.find\<close>. The candidates printed when the match is ambiguous are the
  function's only effect; the model keeps the returned value.
\<close>

definition find_segment ::
  "(string \<Rightarrow> string) \<Rightarrow> segment list \<Rightarrow> string \<Rightarrow> segment option" where
  "find_segment lower segments search =
     (let search_lower = lower search in
      case List.find (\<lambda>s. lower (seg_name s) = search_lower) segments of
        Some s \<Rightarrow> Some s
      | None \<Rightarrow>
          (let matches = filter (\<lambda>s. str_in search_lower (lower (seg_name s))) segments in
           if length matches = 1 then Some (matches ! 0)
           else if length matches > 1 then None
           else None))"

section \<open>Overlap analysis (analyze\_segments.py, main)\<close>

text \<open>
  The overlap block of \<open>main\<close>. \<open>segment_profiles\<close> maps a target name to the set of
  profile identifiers fetched for it; a Python \<^verbatim>\<open>set\<close> is a finite set.
  \<^verbatim>\<open>
  if "No Delta 8" in segment_profiles and "No THCA" in segment_profiles:
      overlap = segment_profiles["No Delta 8"] & segment_profiles["No THCA"]
      print(len(overlap))
      only_d8 = segment_profiles["No Delta 8"] - segment_profiles["No THCA"]
      print(len(only_d8))
  if "No Delta 8" in segment_profiles and "Semi Active" in segment_profiles:
      overlap = segment_profiles["No Delta 8"] & segment_profiles["Semi Active"]
      print(len(overlap))
  if all(name in segment_profiles for name in ["No Delta 8", "No THCA", "Semi Active"]):
      three_way = segment_profiles["No Delta 8"] & segment_profiles["No THCA"]
                  & segment_profiles["Semi Active"]
      print(len(three_way))
  \<close>
  The model returns the numbers printed, \<open>None\<close> where the block is skipped.
\<close>

record overlap_report =
  d8_and_thca :: "nat option"
  d8_only :: "nat option"
  d8_and_semi :: "nat option"
  three_way :: "nat option"

definition overlap_analysis :: "(string \<rightharpoonup> string fset) \<Rightarrow> overlap_report" where
  "overlap_analysis segment_profiles =
     (let d8 = segment_profiles ''No Delta 8'';
          thca = segment_profiles ''No THCA'';
          semi = segment_profiles ''Semi Active''
      in \<lparr> d8_and_thca =
             (case (d8, thca) of (Some a, Some b) \<Rightarrow> Some (fcard (a |\<inter>| b)) | _ \<Rightarrow> None),
           d8_only =
             (case (d8, thca) of (Some a, Some b) \<Rightarrow> Some (fcard (a |-| b)) | _ \<Rightarrow> None),
           d8_and_semi =
             (case (d8, semi) of (Some a, Some c) \<Rightarrow> Some (fcard (a |\<inter>| c)) | _ \<Rightarrow> None),
           three_way =
             (case (d8, thca, semi) of
                (Some a, Some b, Some c) \<Rightarrow> Some (fcard (a |\<inter>| b |\<inter>| c))
              | _ \<Rightarrow> None) \<rparr>)"

section \<open>Revenue attribution (export\_campaign\_revenue.py)\<close>

text \<open>
  The response of the metric-aggregates endpoint. \<open>agg_results\<close> is the list
  \<^verbatim>\<open>data.get("data", {}).get("attributes", {}).get("data", [])\<close>, empty when a key on
  the way is absent. A JSON number is a decimal literal, a rational. A measurement
  is a list of numbers or a single number (\<^verbatim>\<open>isinstance(sum_val, list)\<close>); the
  dimensions are a list of strings, an object with string values, or a string.
  Absent keys are \<open>None\<close>.
\<close>

datatype mvalue = MList "rat list" | MScalar rat

datatype dimensions = DimList "string list" | DimDict "string \<rightharpoonup> string" | DimStr string

record measurements =
  sum_value :: "mvalue option"
  count_value :: "mvalue option"

record aggregate =
  agg_dimensions :: "dimensions option"
  agg_measurements :: "measurements option"

record agg_response =
  agg_status :: int
  agg_results :: "aggregate list"

text \<open>A value of the dictionary returned: \<^verbatim>\<open>{"revenue": ..., "orders": ...}\<close>.\<close>

record revenue_entry =
  entry_revenue :: rat
  entry_orders :: int

datatype py_error = IndexError | RecursionError

text \<open>
  \<^verbatim>\<open>round(float(x), 2)\<close> is floating-point arithmetic and \<^verbatim>\<open>int(x)\<close> truncates a
  float; both are arguments (\<open>round2\<close>, \<open>to_int\<close>) of the functions that use
  them. \<^verbatim>\<open>x or 0\<close> on a number is \<open>x\<close>, the integer 0 when \<open>x\<close> is zero.
\<close>

definition or_zero :: "rat \<Rightarrow> rat" where
  "or_zero x = (if x \<noteq> 0 then x else 0)"

definition get_sum_value :: "measurements option \<Rightarrow> mvalue" where
  "get_sum_value measurements =
     (case measurements of None \<Rightarrow> MList [0]
      | Some m \<Rightarrow> (case sum_value m of None \<Rightarrow> MList [0] | Some v \<Rightarrow> v))"

definition get_count :: "measurements option \<Rightarrow> mvalue" where
  "get_count measurements =
     (case measurements of None \<Rightarrow> MList [0]
      | Some m \<Rightarrow> (case count_value m of None \<Rightarrow> MList [0] | Some v \<Rightarrow> v))"

subsection \<open>get\_all\_campaign\_revenue\<close>

text \<open>
  \<^verbatim>\<open>
  response = requests.post(url, headers=HEADERS, json=payload)
  if response.status_code != 200:
      return {}
  data = response.json()
  results = data.get("data", {}).get("attributes", {}).get("data", [])
  revenue_by_campaign = {}
  for result in results:
      dimensions = result.get("dimensions", [])
      if isinstance(dimensions, list):
          message_id = dimensions[0] if dimensions else ""
      elif isinstance(dimensions, dict):
          message_id = dimensions.get("$attributed_message", "")
      else:
          message_id = str(dimensions) if dimensions else ""
      if not message_id:
          continue
      measurements = result.get("measurements", {})
      sum_val = measurements.get("sum_value", [0])
      count_val = measurements.get("count", [0])
      revenue = sum_val[0] if isinstance(sum_val, list) else sum_val
      orders = count_val[0] if isinstance(count_val, list) else count_val
      revenue_by_campaign[message_id] = {
          "revenue": round(float(revenue or 0), 2),
          "orders": int(orders or 0)}
  return revenue_by_campaign
  \<close>
  \<^verbatim>\<open>sum_val[0]\<close> on an empty list raises \<^verbatim>\<open>IndexError\<close>. The function makes one
  request and its printed lines are left out.
\<close>

definition get_message_id :: "aggregate \<Rightarrow> string" where
  "get_message_id result =
     (case (case agg_dimensions result of None \<Rightarrow> DimList [] | Some d \<Rightarrow> d) of
        DimList ds \<Rightarrow> (case ds of [] \<Rightarrow> [] | d # _ \<Rightarrow> d)
      | DimDict dd \<Rightarrow> (case dd ''$attributed_message'' of None \<Rightarrow> [] | Some v \<Rightarrow> v)
      | DimStr s \<Rightarrow> (if s \<noteq> [] then s else []))"

definition first_or_value :: "mvalue \<Rightarrow> py_error + rat" where
  "first_or_value v =
     (case v of
        MList [] \<Rightarrow> Inl IndexError
      | MList (x # _) \<Rightarrow> Inr x
      | MScalar x \<Rightarrow> Inr x)"

fun revenue_loop ::
  "(rat \<Rightarrow> rat) \<Rightarrow> (rat \<Rightarrow> int) \<Rightarrow> (string \<rightharpoonup> revenue_entry) \<Rightarrow> aggregate list
     \<Rightarrow> py_error + (string \<rightharpoonup> revenue_entry)" where
  "revenue_loop round2 to_int revenue_by_campaign [] = Inr revenue_by_campaign"
| "revenue_loop round2 to_int revenue_by_campaign (result # results) =
     (let message_id = get_message_id result in
      if message_id = [] then revenue_loop round2 to_int revenue_by_campaign results
      else
        case first_or_value (get_sum_value (agg_measurements result)) of
          Inl e \<Rightarrow> Inl e
        | Inr revenue \<Rightarrow>
            (case first_or_value (get_count (agg_measurements result)) of
               Inl e \<Rightarrow> Inl e
             | Inr orders \<Rightarrow>
                 revenue_loop round2 to_int
                   (revenue_by_campaign(message_id \<mapsto>
                      \<lparr> entry_revenue = round2 (or_zero revenue),
                        entry_orders = to_int (or_zero orders) \<rparr>))
                   results))"

definition get_all_campaign_revenue ::
  "(rat \<Rightarrow> rat) \<Rightarrow> (rat \<Rightarrow> int) \<Rightarrow> agg_response
     \<Rightarrow> py_error + (string \<rightharpoonup> revenue_entry)" where
  "get_all_campaign_revenue round2 to_int response =
     (if agg_status response \<noteq> 200 then Inr Map.empty
      else revenue_loop round2 to_int Map.empty (agg_results response))"

subsection \<open>get\_campaign\_revenue\<close>

text \<open>
  \<^verbatim>\<open>
  def get_campaign_revenue(campaign_id, campaign_name, metric_id,
                           start_date, end_date, debug=False):
      print(f"Fetching revenue for: {campaign_name[:40]}...", end=" ")
      url = f"{BASE_URL}/metric-aggregates/"
      response = requests.post(url, headers=HEADERS, json=payload)
      if response.status_code == 429:
          print("Rate limited, waiting 30s...")
          time.sleep(30)
          return get_campaign_revenue(campaign_id, campaign_name, metric_id,
                                      start_date, end_date)
      if response.status_code != 200:
          print(f"Error: {response.status_code}")
          return {"revenue": 0, "orders": 0}
      data = response.json()
      results = data.get("data", {}).get("attributes", {}).get("data", [])
      revenue = 0
      orders = 0
      if results:
          measurements = results[0].get("measurements", {})
          sum_val = measurements.get("sum_value", [0])
          count_val = measurements.get("count", [0])
          if isinstance(sum_val, list):
              revenue = sum_val[0] if sum_val else 0
          else:
              revenue = sum_val or 0
          (the same for orders and count_val)
      print(f"${revenue:,.2f} ({orders} orders)")
      return {"revenue": round(float(revenue), 2), "orders": int(orders)}
  \<close>
  The retry is a recursive call, one more Python stack frame for each 429. The
  interpreter raises \<^verbatim>\<open>RecursionError\<close> when its recursion limit is reached;
  \<open>frames\<close> is the number of nested calls in which \<^verbatim>\<open>requests.post\<close> still has
  room on the stack. The nested call after them is entered, prints its first
  line, and \<^verbatim>\<open>requests.post\<close> raises before a request is made. The payload is
  the same on every call and is left out of the \<open>Post\<close> event, as are the lines
  printed under \<^verbatim>\<open>debug\<close> and the dump of the body of a failed response.
\<close>

definition first_or_zero :: "mvalue \<Rightarrow> rat" where
  "first_or_zero v =
     (case v of
        MList [] \<Rightarrow> 0
      | MList (x # _) \<Rightarrow> x
      | MScalar x \<Rightarrow> or_zero x)"

fun get_campaign_revenue ::
  "(rat \<Rightarrow> rat) \<Rightarrow> (rat \<Rightarrow> int) \<Rightarrow> string \<Rightarrow> nat \<Rightarrow> string \<Rightarrow> event list \<Rightarrow> agg_response list
     \<Rightarrow> ((py_error + revenue_entry) \<times> event list) option" where
  "get_campaign_revenue round2 to_int BASE_URL frames campaign_name tr [] = None"
| "get_campaign_revenue round2 to_int BASE_URL frames campaign_name tr (response # rs) =
     (let tr = tr @ [Print (Fetching_revenue campaign_name),
                     Post (BASE_URL @ ''/metric-aggregates/'')] in
      if agg_status response = 429
      then
        (let tr = tr @ [Print Rate_limited_waiting_30s, Sleep 30] in
         case frames of
           0 \<Rightarrow> Some (Inl RecursionError, tr @ [Print (Fetching_revenue campaign_name)])
         | Suc frames' \<Rightarrow>
             get_campaign_revenue round2 to_int BASE_URL frames' campaign_name tr rs)
      else if agg_status response \<noteq> 200
      then Some (Inr \<lparr> entry_revenue = 0, entry_orders = 0 \<rparr>,
                 tr @ [Print (Error_status (agg_status response))])
      else
        let results = agg_results response;
            revenue = (case results of [] \<Rightarrow> 0
                       | r # _ \<Rightarrow> first_or_zero (get_sum_value (agg_measurements r)));
            orders = (case results of [] \<Rightarrow> 0
                      | r # _ \<Rightarrow> first_or_zero (get_count (agg_measurements r)))
        in Some (Inr \<lparr> entry_revenue = round2 revenue, entry_orders = to_int orders \<rparr>,
                 tr @ [Print (Revenue_orders revenue orders)]))"

subsection \<open>Matching revenue to campaigns (main)\<close>

text \<open>
  A campaign as \<open>get_campaigns\<close> builds it from a row of the CSV file, with the
  message identifier looked up for it (\<^verbatim>\<open>None\<close> when the lookup found none).
  \<open>main\<close> then adds the keys \<^verbatim>\<open>revenue\<close> and \<^verbatim>\<open>orders\<close>.
\<close>

record campaign =
  campaign_id :: string
  campaign_name :: string
  subject :: string
  send_time :: string
  message_id :: "string option"

record campaign_with_revenue = campaign +
  revenue :: rat
  orders :: int

text \<open>
  \<^verbatim>\<open>
  total_revenue = 0
  total_orders = 0
  matched_count = 0
  for campaign in campaigns:
      message_id = campaign.get("message_id")
      campaign["revenue"] = 0
      campaign["orders"] = 0
      if message_id and message_id in revenue_data:
          campaign["revenue"] = revenue_data[message_id]["revenue"]
          campaign["orders"] = revenue_data[message_id]["orders"]
          matched_count += 1
      total_revenue += campaign["revenue"]
      total_orders += campaign["orders"]
  \<close>
\<close>

definition match_campaign ::
  "(string \<rightharpoonup> revenue_entry) \<Rightarrow> campaign \<Rightarrow> campaign_with_revenue \<times> bool" where
  "match_campaign revenue_data c =
     (let unmatched = (campaign.extend c \<lparr> revenue = 0, orders = 0 \<rparr>, False) in
      case message_id c of
        None \<Rightarrow> unmatched
      | Some m \<Rightarrow>
          if m = [] then unmatched
          else
            (case revenue_data m of
               None \<Rightarrow> unmatched
             | Some e \<Rightarrow>
                 (campaign.extend c \<lparr> revenue = entry_revenue e, orders = entry_orders e \<rparr>,
                  True)))"

text \<open>
  The second component says whether the campaign was matched
  (\<^verbatim>\<open>matched_count += 1\<close>). The state of the loop:
\<close>

record match_state =
  campaigns_out :: "campaign_with_revenue list"
  total_revenue :: rat
  total_orders :: int
  matched_count :: nat

definition match_step ::
  "(string \<rightharpoonup> revenue_entry) \<Rightarrow> match_state \<Rightarrow> campaign \<Rightarrow> match_state" where
  "match_step revenue_data st c =
     (let (c', matched) = match_campaign revenue_data c in
      \<lparr> campaigns_out = campaigns_out st @ [c'],
        total_revenue = total_revenue st + revenue c',
        total_orders = total_orders st + orders c',
        matched_count = (if matched then matched_count st + 1 else matched_count st) \<rparr>)"

definition match_revenue ::
  "(string \<rightharpoonup> revenue_entry) \<Rightarrow> campaign list \<Rightarrow> match_state" where
  "match_revenue revenue_data campaigns =
     foldl (match_step revenue_data)
       \<lparr> campaigns_out = [], total_revenue = 0, total_orders = 0, matched_count = 0 \<rparr>
       campaigns"

section \<open>Properties of the fetch loops\<close>

subsection \<open>One iteration\<close>

lemma fset_add_profiles: "fset (add_profiles S ps) = fset S \<union> profile_id ` set ps"
  unfolding add_profiles_def by (induction ps arbitrary: S) auto

lemma add_profiles_Nil: "add_profiles S [] = S"
  by (simp add: add_profiles_def)

lemma add_profiles_append: "add_profiles (add_profiles S ps) qs = add_profiles S (ps @ qs)"
  by (simp add: add_profiles_def)

lemma add_profiles_present: "profile_id p |\<in>| S \<Longrightarrow> add_profiles S [p] = S"
  by (auto simp: add_profiles_def)

lemma fcard_add_profiles: "fcard (add_profiles S ps) = card (fset S \<union> profile_id ` set ps)"
  by (simp add: fcard.rep_eq fset_add_profiles)

lemma fetched_Nil: "fetched [] = []"
  by (simp add: fetched_def)

lemma fetched_Cons:
  "fetched (r # rs) = (if status_code r = 200 then get_data (json r) else []) @ fetched rs"
  by (simp add: fetched_def)

lemma profiles_loop_Nil:
  "profiles_loop mp d url ids tr [] =
     (if truthy url \<and> fcard ids < mp then None else Some (url, ids, tr))"
  by simp

lemma profiles_loop_exit:
  "\<not> (truthy url \<and> fcard ids < mp) \<Longrightarrow> profiles_loop mp d url ids tr rs = Some (url, ids, tr)"
  by (cases rs; cases url) auto

lemma profiles_loop_429:
  assumes "u \<noteq> []" "fcard ids < mp" "status_code r = 429"
  shows "profiles_loop mp d (Some u) ids tr (r # rs) =
         profiles_loop mp d (Some u) ids
           (tr @ [Get u (request_params u), Print Rate_limited_waiting, Sleep 30]) rs"
  using assms by (simp add: Let_def)

lemma profiles_loop_error:
  assumes "u \<noteq> []" "fcard ids < mp" "status_code r \<noteq> 429" "status_code r \<noteq> 200"
  shows "profiles_loop mp d (Some u) ids tr (r # rs) =
         Some (Some u, ids, tr @ [Get u (request_params u), Print (Error_status (status_code r))])"
  using assms by (simp add: Let_def)

lemma profiles_loop_ok:
  assumes "u \<noteq> []" "fcard ids < mp" "status_code r = 200"
  shows "profiles_loop mp d (Some u) ids tr (r # rs) =
         profiles_loop mp d (get_next (json r)) (add_profiles ids (get_data (json r)))
           (tr @ page_trace d u (add_profiles ids (get_data (json r))) (get_next (json r))) rs"
  using assms by (simp add: Let_def page_trace_def fcard_fempty)

lemma segments_loop_Nil:
  "segments_loop url segs tr [] = (if truthy url then None else Some (segs, tr))"
  by simp

lemma segments_loop_exit:
  "\<not> truthy url \<Longrightarrow> segments_loop url segs tr rs = Some (segs, tr)"
  by (cases rs; cases url) auto

lemma segments_loop_error:
  assumes "u \<noteq> []" "status_code r \<noteq> 200"
  shows "segments_loop (Some u) segs tr (r # rs) =
         Some (segs, tr @ [Get u None, Print (Error_status (status_code r))])"
  using assms by (simp add: Let_def)

lemma segments_loop_ok:
  assumes "u \<noteq> []" "status_code r = 200"
  shows "segments_loop (Some u) segs tr (r # rs) =
         segments_loop (get_next (json r)) (segs @ map to_segment (get_data (json r)))
           (tr @ Get u None # (if truthy (get_next (json r)) then [Sleep (3 / 10)] else [])) rs"
  using assms by (simp add: Let_def)

declare profiles_loop.simps [simp del] segments_loop.simps [simp del]

text \<open>The equations that evaluate a run on a concrete list of responses.\<close>

lemmas run_simps = get_segment_profile_ids_def profiles_loop.simps Let_def get_data_def
  get_next_def add_profiles_def request_params_def fcard_finsert_if fcard_fempty

subsection \<open>Runs of 429 responses\<close>

lemma profiles_loop_429s:
  assumes "u \<noteq> []" "fcard ids < mp" "\<forall>r\<in>set qs. status_code r = 429"
  shows "profiles_loop mp d (Some u) ids tr (qs @ rs) =
         profiles_loop mp d (Some u) ids
           (tr @ concat (replicate (length qs)
                   [Get u (request_params u), Print Rate_limited_waiting, Sleep 30])) rs"
  using assms
proof (induction qs arbitrary: tr)
  case Nil
  then show ?case by simp
next
  case (Cons q qs)
  then show ?case by (simp add: profiles_loop_429)
qed

lemma profiles_loop_429s_None:
  assumes "u \<noteq> []" "fcard ids < mp" "\<forall>r\<in>set qs. status_code r = 429"
  shows "profiles_loop mp d (Some u) ids tr qs = None"
  using profiles_loop_429s [OF assms, of d tr "[]"] assms by (simp add: profiles_loop_Nil)

lemma get_campaign_revenue_429s:
  assumes "\<forall>r\<in>set qs. agg_status r = 429" "length qs \<le> frames"
  shows "get_campaign_revenue r2 ti B frames nm tr (qs @ rs) =
         get_campaign_revenue r2 ti B (frames - length qs) nm
           (tr @ concat (replicate (length qs)
                   [Print (Fetching_revenue nm), Post (B @ ''/metric-aggregates/''),
                    Print Rate_limited_waiting_30s, Sleep 30])) rs"
  using assms
proof (induction qs arbitrary: tr frames)
  case Nil
  then show ?case by simp
next
  case (Cons q qs)
  then obtain f' where f: "frames = Suc f'" by (cases frames) auto
  with Cons.prems have "length qs \<le> f'" "\<forall>r\<in>set qs. agg_status r = 429" by auto
  from Cons.IH [OF this(2) this(1)] f Cons.prems show ?case
    by (simp add: Let_def)
qed

lemma concat_replicate_commute: "concat (replicate n xs) @ xs = xs @ concat (replicate n xs)"
  by (induction n) simp_all

lemma get_campaign_revenue_recursion_limit:
  assumes "\<forall>r\<in>set qs. agg_status r = 429" "length qs = Suc frames"
  shows "get_campaign_revenue r2 ti B frames nm tr (qs @ rs) =
         Some (Inl RecursionError,
           tr @ concat (replicate (length qs)
                   [Print (Fetching_revenue nm), Post (B @ ''/metric-aggregates/''),
                    Print Rate_limited_waiting_30s, Sleep 30])
              @ [Print (Fetching_revenue nm)])"
proof -
  from assms(2) obtain qs' q where qs: "qs = qs' @ [q]"
    by (cases qs rule: rev_cases) auto
  with assms have a: "\<forall>r\<in>set qs'. agg_status r = 429" "length qs' \<le> frames"
      "agg_status q = 429" "frames - length qs' = 0"
    by auto
  show ?thesis
    unfolding qs using get_campaign_revenue_429s [OF a(1) a(2), of r2 ti B nm tr "q # rs"] a(3,4)
      concat_replicate_commute [of "length qs'"
        "[Print (Fetching_revenue nm), Post (B @ ''/metric-aggregates/''),
          Print Rate_limited_waiting_30s, Sleep 30]"]
    by (simp add: Let_def)
qed

subsection \<open>The set accumulated by a run\<close>

lemma profiles_loop_fetched:
  "profiles_loop mp d url ids tr rs = Some (url', ids', tr')
     \<Longrightarrow> \<exists>k\<le>length rs. ids' = add_profiles ids (fetched (take k rs))"
proof (induction rs arbitrary: url ids tr)
  case Nil
  then show ?case
    by (auto simp: profiles_loop_Nil fetched_Nil add_profiles_Nil split: if_splits)
next
  case (Cons r rs)
  show ?case
  proof (cases "truthy url \<and> fcard ids < mp")
    case False
    with Cons.prems have "ids' = ids" by (simp add: profiles_loop_exit)
    then have "ids' = add_profiles ids (fetched (take 0 (r # rs)))"
      by (simp add: fetched_Nil add_profiles_Nil)
    then show ?thesis by blast
  next
    case True
    then obtain u where u: "url = Some u" "u \<noteq> []" "fcard ids < mp"
      by (cases url) auto
    consider (limited) "status_code r = 429" | (ok) "status_code r = 200"
      | (err) "status_code r \<noteq> 429" "status_code r \<noteq> 200" by blast
    then show ?thesis
    proof cases
      case limited
      with Cons.prems u have "profiles_loop mp d (Some u) ids
          (tr @ [Get u (request_params u), Print Rate_limited_waiting, Sleep 30]) rs
            = Some (url', ids', tr')"
        by (simp add: profiles_loop_429)
      from Cons.IH [OF this] obtain k where
        "k \<le> length rs" "ids' = add_profiles ids (fetched (take k rs))"
        by blast
      with limited have "Suc k \<le> length (r # rs)"
          "ids' = add_profiles ids (fetched (take (Suc k) (r # rs)))"
        by (simp_all add: fetched_Cons)
      then show ?thesis by blast
    next
      case ok
      with Cons.prems u have "profiles_loop mp d (get_next (json r))
          (add_profiles ids (get_data (json r)))
          (tr @ page_trace d u (add_profiles ids (get_data (json r))) (get_next (json r))) rs
            = Some (url', ids', tr')"
        by (simp add: profiles_loop_ok)
      from Cons.IH [OF this] obtain k where "k \<le> length rs"
          "ids' = add_profiles (add_profiles ids (get_data (json r))) (fetched (take k rs))"
        by blast
      with ok have "Suc k \<le> length (r # rs)"
          "ids' = add_profiles ids (fetched (take (Suc k) (r # rs)))"
        by (simp_all add: fetched_Cons add_profiles_append)
      then show ?thesis by blast
    next
      case err
      with Cons.prems u have "ids' = ids" by (simp add: profiles_loop_error)
      then have "ids' = add_profiles ids (fetched (take 0 (r # rs)))"
        by (simp add: fetched_Nil add_profiles_Nil)
      then show ?thesis by blast
    qed
  qed
qed

text \<open>
  \<^bold>\<open>Claim C4.\<close> The identifiers are kept in a set and every insertion is
  \<^verbatim>\<open>profile_ids.add\<close>, so an identifier is held at most once at every moment:
  inserting an identifier that is already present leaves the set as it is,
  inserting a new one makes it one larger, and after any number \<open>n\<close> of the
  insertions of a page the size of the set is the number of distinct identifiers
  seen so far, those of earlier pages (\<open>S\<close>) included. The set a run returns
  consists of the identifiers on the 200 pages it read, each counted once however
  often the pages repeat it.
\<close>

theorem profile_ids_unique:
  "(profile_id p |\<in>| S \<longrightarrow> add_profiles S [p] = S)
   \<and> (profile_id p |\<notin>| S \<longrightarrow> fcard (add_profiles S [p]) = fcard S + 1)
   \<and> (\<forall>n. fcard (add_profiles S (take n ps)) = card (fset S \<union> profile_id ` set (take n ps)))
   \<and> (\<forall>ids tr. get_segment_profile_ids B d sid nm mp rs = Some (ids, tr) \<longrightarrow>
        (\<exists>k\<le>length rs. fset ids = profile_id ` set (fetched (take k rs))
            \<and> fcard ids = card (profile_id ` set (fetched (take k rs)))))"
proof -
  have 1: "profile_id p |\<in>| S \<longrightarrow> add_profiles S [p] = S"
    by (simp add: add_profiles_present)
  have 2: "profile_id p |\<notin>| S \<longrightarrow> fcard (add_profiles S [p]) = fcard S + 1"
    by (simp add: add_profiles_def fcard_finsert_disjoint)
  have 3: "\<forall>n. fcard (add_profiles S (take n ps)) = card (fset S \<union> profile_id ` set (take n ps))"
    by (simp add: fcard_add_profiles)
  have 4: "\<exists>k\<le>length rs. fset ids = profile_id ` set (fetched (take k rs))
            \<and> fcard ids = card (profile_id ` set (fetched (take k rs)))"
    if "get_segment_profile_ids B d sid nm mp rs = Some (ids, tr)" for ids tr
  proof -
    from that obtain url' tr' where
      "profiles_loop mp d (Some (B @ ''/segments/'' @ sid @ ''/profiles/'')) {||}
         [Print (Fetching_profiles nm)] rs = Some (url', ids, tr')"
      by (auto simp: get_segment_profile_ids_def split: option.splits)
    then obtain k where "k \<le> length rs" "ids = add_profiles {||} (fetched (take k rs))"
      using profiles_loop_fetched by blast
    then show ?thesis
      by (auto simp: fset_add_profiles fcard_add_profiles)
  qed
  from 1 2 3 4 show ?thesis by blast
qed

text \<open>
  Two pages that repeat \<open>a\<close> within the first page and \<open>b\<close> across the pages: the
  run returns the three identifiers.
\<close>

theorem profile_ids_unique_witness:
  "get_segment_profile_ids ''B'' (1 / 2) ''S1'' ''No THCA'' 50000
     [\<lparr>status_code = 200,
       json = \<lparr>page_data = Some [\<lparr>profile_id = ''a''\<rparr>, \<lparr>profile_id = ''b''\<rparr>, \<lparr>profile_id = ''a''\<rparr>],
               page_links = Some \<lparr>links_next = Some ''B/next?c=1''\<rparr>\<rparr>\<rparr>,
      \<lparr>status_code = 200,
       json = \<lparr>page_data = Some [\<lparr>profile_id = ''b''\<rparr>, \<lparr>profile_id = ''c''\<rparr>],
               page_links = Some \<lparr>links_next = None\<rparr>\<rparr>\<rparr>]
     = Some ({|''a'', ''b'', ''c''|},
         [Print (Fetching_profiles ''No THCA''),
          Get ''B/segments/S1/profiles/'' (Some [(''page[size]'', 100)]), Sleep (1 / 2),
          Get ''B/next?c=1'' None, Print (Profiles_total 3)])
   \<and> (\<exists>k\<le>2. fset {|''a'', ''b'', ''c''|} = profile_id ` set (fetched (take k
     [\<lparr>status_code = 200,
       json = \<lparr>page_data = Some [\<lparr>profile_id = ''a''\<rparr>, \<lparr>profile_id = ''b''\<rparr>, \<lparr>profile_id = ''a''\<rparr>],
               page_links = Some \<lparr>links_next = Some ''B/next?c=1''\<rparr>\<rparr>\<rparr>,
      \<lparr>status_code = 200,
       json = \<lparr>page_data = Some [\<lparr>profile_id = ''b''\<rparr>, \<lparr>profile_id = ''c''\<rparr>],
               page_links = Some \<lparr>links_next = None\<rparr>\<rparr>\<rparr>])))
   \<and> fcard {|''a'', ''b'', ''c''|} = 3
   \<and> add_profiles {|''a'', ''b''|} [\<lparr>profile_id = ''b''\<rparr>] = {|''a'', ''b''|}
   \<and> fcard (add_profiles {|''a'', ''b''|} [\<lparr>profile_id = ''c''\<rparr>]) = 3"
proof -
  let ?rs = "[\<lparr>status_code = 200,
       json = \<lparr>page_data = Some [\<lparr>profile_id = ''a''\<rparr>, \<lparr>profile_id = ''b''\<rparr>, \<lparr>profile_id = ''a''\<rparr>],
               page_links = Some \<lparr>links_next = Some ''B/next?c=1''\<rparr>\<rparr>\<rparr>,
      \<lparr>status_code = 200,
       json = \<lparr>page_data = Some [\<lparr>profile_id = ''b''\<rparr>, \<lparr>profile_id = ''c''\<rparr>],
               page_links = Some \<lparr>links_next = None\<rparr>\<rparr>\<rparr>]"
  have run: "get_segment_profile_ids ''B'' (1 / 2) ''S1'' ''No THCA'' 50000 ?rs
     = Some ({|''a'', ''b'', ''c''|},
         [Print (Fetching_profiles ''No THCA''),
          Get ''B/segments/S1/profiles/'' (Some [(''page[size]'', 100)]), Sleep (1 / 2),
          Get ''B/next?c=1'' None, Print (Profiles_total 3)])"
    by (simp add: run_simps page_params_def) auto
  have card3: "fcard {|''a'', ''b'', ''c''|} = 3"
    by (simp add: fcard_finsert_if fcard_fempty)
  have card2: "fcard {|''a'', ''b''|} = 2"
    by (simp add: fcard_finsert_if fcard_fempty)
  note inst = profile_ids_unique [of _ "{|''a'', ''b''|}" "[]" "''B''" "1 / 2" "''S1''"
        "''No THCA''" 50000 ?rs]
  from inst [of "\<lparr>profile_id = ''b''\<rparr>"]
  have a: "add_profiles {|''a'', ''b''|} [\<lparr>profile_id = ''b''\<rparr>] = {|''a'', ''b''|}"
    by simp
  from inst [of "\<lparr>profile_id = ''c''\<rparr>"]
  have b: "fcard (add_profiles {|''a'', ''b''|} [\<lparr>profile_id = ''c''\<rparr>]) = 3"
    by (simp add: card2)
  have len: "length ?rs = 2"
    by simp
  have "\<exists>k\<le>length ?rs. fset {|''a'', ''b'', ''c''|} = profile_id ` set (fetched (take k ?rs))
          \<and> fcard {|''a'', ''b'', ''c''|} = card (profile_id ` set (fetched (take k ?rs)))"
    using inst [of "\<lparr>profile_id = ''c''\<rparr>", THEN conjunct2, THEN conjunct2, THEN conjunct2,
        rule_format, OF run] .
  then have c: "\<exists>k\<le>2. fset {|''a'', ''b'', ''c''|} = profile_id ` set (fetched (take k ?rs))"
    unfolding len by blast
  from run card3 a b c show ?thesis by blast
qed

subsection \<open>Rate limiting\<close>

text \<open>
  \<^bold>\<open>Claim C1\<close> (as amended). Neither function counts its retries and neither has
  a \<^verbatim>\<open>RateLimitExceeded\<close> error. \<open>get_segment_profile_ids\<close> answers every 429
  by printing a line, sleeping 30 seconds and requesting the same URL with the
  same parameters again: after any number of consecutive 429 responses it has
  retried that many times, goes on with the response that follows, and has not
  returned when none follows. \<open>get_campaign_revenue\<close> answers a 429 by sleeping
  30 seconds and calling itself; the retries are bounded only by the recursion
  limit of the interpreter, where the nested call prints its first line and
  raises \<^verbatim>\<open>RecursionError\<close>.
\<close>

theorem rate_limit_retries_unbounded:
  "(u \<noteq> [] \<and> fcard ids < mp \<and> (\<forall>r\<in>set qs. status_code r = 429) \<longrightarrow>
      profiles_loop mp d (Some u) ids tr (qs @ rs)
        = profiles_loop mp d (Some u) ids
            (tr @ concat (replicate (length qs)
               [Get u (request_params u), Print Rate_limited_waiting, Sleep 30])) rs
      \<and> profiles_loop mp d (Some u) ids tr qs = None)
   \<and> (0 < mp \<and> (\<forall>r\<in>set qs. status_code r = 429) \<longrightarrow>
        get_segment_profile_ids B d sid nm mp qs = None)
   \<and> ((\<forall>a\<in>set as. agg_status a = 429) \<and> length as \<le> frames \<longrightarrow>
        get_campaign_revenue round2 to_int B frames cn tr' (as @ rs')
          = get_campaign_revenue round2 to_int B (frames - length as) cn
              (tr' @ concat (replicate (length as)
                 [Print (Fetching_revenue cn), Post (B @ ''/metric-aggregates/''),
                  Print Rate_limited_waiting_30s, Sleep 30])) rs'
        \<and> get_campaign_revenue round2 to_int B frames cn tr' as = None)
   \<and> ((\<forall>a\<in>set as. agg_status a = 429) \<and> length as = Suc frames \<longrightarrow>
        get_campaign_revenue round2 to_int B frames cn tr' (as @ rs')
          = Some (Inl RecursionError,
              tr' @ concat (replicate (length as)
                 [Print (Fetching_revenue cn), Post (B @ ''/metric-aggregates/''),
                  Print Rate_limited_waiting_30s, Sleep 30])
                @ [Print (Fetching_revenue cn)]))"
proof -
  have 1: "profiles_loop mp d (Some u) ids tr (qs @ rs)
        = profiles_loop mp d (Some u) ids
            (tr @ concat (replicate (length qs)
               [Get u (request_params u), Print Rate_limited_waiting, Sleep 30])) rs
      \<and> profiles_loop mp d (Some u) ids tr qs = None"
    if "u \<noteq> []" "fcard ids < mp" "\<forall>r\<in>set qs. status_code r = 429"
    using that by (simp add: profiles_loop_429s profiles_loop_429s_None)
  have 2: "get_segment_profile_ids B d sid nm mp qs = None"
    if "0 < mp" "\<forall>r\<in>set qs. status_code r = 429"
    using that by (simp add: get_segment_profile_ids_def profiles_loop_429s_None fcard_fempty)
  have 3: "get_campaign_revenue round2 to_int B frames cn tr' (as @ rs')
          = get_campaign_revenue round2 to_int B (frames - length as) cn
              (tr' @ concat (replicate (length as)
                 [Print (Fetching_revenue cn), Post (B @ ''/metric-aggregates/''),
                  Print Rate_limited_waiting_30s, Sleep 30])) rs'
        \<and> get_campaign_revenue round2 to_int B frames cn tr' as = None"
    if "\<forall>a\<in>set as. agg_status a = 429" "length as \<le> frames"
    using get_campaign_revenue_429s [OF that, of round2 to_int B cn tr' rs']
      get_campaign_revenue_429s [OF that, of round2 to_int B cn tr' "[]"]
    by simp
  have 4: "get_campaign_revenue round2 to_int B frames cn tr' (as @ rs')
          = Some (Inl RecursionError,
              tr' @ concat (replicate (length as)
                 [Print (Fetching_revenue cn), Post (B @ ''/metric-aggregates/''),
                  Print Rate_limited_waiting_30s, Sleep 30])
                @ [Print (Fetching_revenue cn)])"
    if "\<forall>a\<in>set as. agg_status a = 429" "length as = Suc frames"
    using that by (rule get_campaign_revenue_recursion_limit)
  from 1 2 3 4 show ?thesis by blast
qed

text \<open>
  Two 429 responses: the loop has not returned, and neither has the recursion
  when the stack has room for two nested calls; with room for one, the second
  nested call prints its first line and raises.
\<close>

theorem rate_limit_retries_unbounded_witness:
  "profiles_loop 10 (1 / 2) (Some ''B/x'') {||} []
      [\<lparr>status_code = 429, json = \<lparr>page_data = None, page_links = None\<rparr>\<rparr>,
       \<lparr>status_code = 429, json = \<lparr>page_data = None, page_links = None\<rparr>\<rparr>] = None
   \<and> get_segment_profile_ids ''B'' (1 / 2) ''S1'' ''No THCA'' 10
      [\<lparr>status_code = 429, json = \<lparr>page_data = None, page_links = None\<rparr>\<rparr>,
       \<lparr>status_code = 429, json = \<lparr>page_data = None, page_links = None\<rparr>\<rparr>] = None
   \<and> get_campaign_revenue (\<lambda>x. x) floor ''B'' 2 ''Spring sale'' []
      [\<lparr>agg_status = 429, agg_results = []\<rparr>, \<lparr>agg_status = 429, agg_results = []\<rparr>] = None
   \<and> get_campaign_revenue (\<lambda>x. x) floor ''B'' 1 ''Spring sale'' []
      ([\<lparr>agg_status = 429, agg_results = []\<rparr>, \<lparr>agg_status = 429, agg_results = []\<rparr>]
        @ [\<lparr>agg_status = 200, agg_results = []\<rparr>])
     = Some (Inl RecursionError,
         [Print (Fetching_revenue ''Spring sale''), Post ''B/metric-aggregates/'',
          Print Rate_limited_waiting_30s, Sleep 30,
          Print (Fetching_revenue ''Spring sale''), Post ''B/metric-aggregates/'',
          Print Rate_limited_waiting_30s, Sleep 30,
          Print (Fetching_revenue ''Spring sale'')])"
  using rate_limit_retries_unbounded [of "''B/x''" "{||}" 10
      "[\<lparr>status_code = 429, json = \<lparr>page_data = None, page_links = None\<rparr>\<rparr>,
        \<lparr>status_code = 429, json = \<lparr>page_data = None, page_links = None\<rparr>\<rparr>]"
      "1 / 2" "[]" "[]" "''B''" "''S1''" "''No THCA''"
      "[\<lparr>agg_status = 429, agg_results = []\<rparr>, \<lparr>agg_status = 429, agg_results = []\<rparr>]"
      2 "\<lambda>x. x" floor "''Spring sale''" "[]" "[]"]
    rate_limit_retries_unbounded [of "''B/x''" "{||}" 10
      "[\<lparr>status_code = 429, json = \<lparr>page_data = None, page_links = None\<rparr>\<rparr>,
        \<lparr>status_code = 429, json = \<lparr>page_data = None, page_links = None\<rparr>\<rparr>]"
      "1 / 2" "[]" "[]" "''B''" "''S1''" "''No THCA''"
      "[\<lparr>agg_status = 429, agg_results = []\<rparr>, \<lparr>agg_status = 429, agg_results = []\<rparr>]"
      1 "\<lambda>x. x" floor "''Spring sale''" "[]" "[\<lparr>agg_status = 200, agg_results = []\<rparr>]"]
  by (simp add: fcard_fempty)

text \<open>
  The scenario of the claim, five 429 responses: after them the loop has not
  returned and has raised nothing, and when a 200 follows it returns the page
  after five retries, more than a limit of three would allow.
\<close>

theorem rate_limit_exceeded_counterexample:
  "get_segment_profile_ids ''B'' (1 / 2) ''S1'' ''No THCA'' 50000
      [\<lparr>status_code = 429, json = \<lparr>page_data = None, page_links = None\<rparr>\<rparr>,
       \<lparr>status_code = 429, json = \<lparr>page_data = None, page_links = None\<rparr>\<rparr>,
       \<lparr>status_code = 429, json = \<lparr>page_data = None, page_links = None\<rparr>\<rparr>,
       \<lparr>status_code = 429, json = \<lparr>page_data = None, page_links = None\<rparr>\<rparr>,
       \<lparr>status_code = 429, json = \<lparr>page_data = None, page_links = None\<rparr>\<rparr>] = None
   \<and> get_segment_profile_ids ''B'' (1 / 2) ''S1'' ''No THCA'' 50000
      [\<lparr>status_code = 429, json = \<lparr>page_data = None, page_links = None\<rparr>\<rparr>,
       \<lparr>status_code = 429, json = \<lparr>page_data = None, page_links = None\<rparr>\<rparr>,
       \<lparr>status_code = 429, json = \<lparr>page_data = None, page_links = None\<rparr>\<rparr>,
       \<lparr>status_code = 429, json = \<lparr>page_data = None, page_links = None\<rparr>\<rparr>,
       \<lparr>status_code = 429, json = \<lparr>page_data = None, page_links = None\<rparr>\<rparr>,
       \<lparr>status_code = 200,
        json = \<lparr>page_data = Some [\<lparr>profile_id = ''a''\<rparr>], page_links = None\<rparr>\<rparr>]
     = Some ({|''a''|},
         [Print (Fetching_profiles ''No THCA''),
          Get ''B/segments/S1/profiles/'' (Some [(''page[size]'', 100)]),
          Print Rate_limited_waiting, Sleep 30,
          Get ''B/segments/S1/profiles/'' (Some [(''page[size]'', 100)]),
          Print Rate_limited_waiting, Sleep 30,
          Get ''B/segments/S1/profiles/'' (Some [(''page[size]'', 100)]),
          Print Rate_limited_waiting, Sleep 30,
          Get ''B/segments/S1/profiles/'' (Some [(''page[size]'', 100)]),
          Print Rate_limited_waiting, Sleep 30,
          Get ''B/segments/S1/profiles/'' (Some [(''page[size]'', 100)]),
          Print Rate_limited_waiting, Sleep 30,
          Get ''B/segments/S1/profiles/'' (Some [(''page[size]'', 100)]),
          Print (Profiles_total 1)])"
  by (simp add: run_simps page_params_def)

subsection \<open>Failed requests\<close>

text \<open>
  \<^bold>\<open>Claim C6\<close> (as amended). On a status other than 200 and 429,
  \<open>get_segment_profile_ids\<close> leaves its loop at once and returns the identifiers
  accumulated so far; on a status other than 200, \<open>get_all_segments\<close> returns the
  segments accumulated so far. Neither raises. The failure is reported by the
  printed line \<^verbatim>\<open>Error: {status_code}\<close> alone: the line has no page index and
  the value returned carries no description of the failure.
\<close>

theorem fetch_error_returns_partial:
  "(u \<noteq> [] \<and> fcard ids < mp \<and> status_code r \<noteq> 200 \<and> status_code r \<noteq> 429 \<longrightarrow>
      profiles_loop mp d (Some u) ids tr (r # rs)
        = Some (Some u, ids, tr @ [Get u (request_params u), Print (Error_status (status_code r))]))
   \<and> (0 < mp \<and> status_code r \<noteq> 200 \<and> status_code r \<noteq> 429 \<longrightarrow>
      get_segment_profile_ids B d sid nm mp (r # rs)
        = Some ({||},
            [Print (Fetching_profiles nm),
             Get (B @ ''/segments/'' @ sid @ ''/profiles/'')
               (request_params (B @ ''/segments/'' @ sid @ ''/profiles/'')),
             Print (Error_status (status_code r)), Print (Profiles_total 0)]))
   \<and> (v \<noteq> [] \<and> status_code q \<noteq> 200 \<longrightarrow>
      segments_loop (Some v) segs tq (q # qs)
        = Some (segs, tq @ [Get v None, Print (Error_status (status_code q))]))"
  by (simp add: profiles_loop_error segments_loop_error get_segment_profile_ids_def fcard_fempty)

theorem fetch_error_returns_partial_witness:
  "profiles_loop 50000 (1 / 2) (Some ''B/next?c=1'') {|''a'', ''b''|} []
      [\<lparr>status_code = 500, json = \<lparr>page_data = None, page_links = None\<rparr>\<rparr>]
     = Some (Some ''B/next?c=1'', {|''a'', ''b''|}, [Get ''B/next?c=1'' None, Print (Error_status 500)])
   \<and> get_segment_profile_ids ''B'' (1 / 2) ''S1'' ''No THCA'' 50000
      [\<lparr>status_code = 500, json = \<lparr>page_data = None, page_links = None\<rparr>\<rparr>]
     = Some ({||},
         [Print (Fetching_profiles ''No THCA''),
          Get ''B/segments/S1/profiles/'' (Some [(''page[size]'', 100)]),
          Print (Error_status 500), Print (Profiles_total 0)])
   \<and> segments_loop (Some ''B/segments/'') [\<lparr>seg_id = ''S1'', seg_name = ''No THCA''\<rparr>] []
      [\<lparr>status_code = 503, json = \<lparr>page_data = None, page_links = None\<rparr>\<rparr>]
     = Some ([\<lparr>seg_id = ''S1'', seg_name = ''No THCA''\<rparr>],
         [Get ''B/segments/'' None, Print (Error_status 503)])"
  using fetch_error_returns_partial [of "''B/next?c=1''" "{|''a'', ''b''|}" 50000
      "\<lparr>status_code = 500, json = \<lparr>page_data = None, page_links = None\<rparr>\<rparr>" "1 / 2" "[]" "[]"
      "''B''" "''S1''" "''No THCA''" "''B/segments/''"
      "\<lparr>status_code = 503, json = \<lparr>page_data = None, page_links = None\<rparr>\<rparr>"
      "[\<lparr>seg_id = ''S1'', seg_name = ''No THCA''\<rparr>]" "[]" "[]"]
  by (simp add: fcard_finsert_if fcard_fempty request_params_def page_params_def)

text \<open>
  A run that fails on its second request returns the same value as a run over a
  collection that ends after the first page: the set alone, with no
  \<^verbatim>\<open>FetchFailed\<close> description attached.
\<close>

theorem fetch_failed_counterexample:
  "get_segment_profile_ids ''B'' (1 / 2) ''S1'' ''No THCA'' 50000
      [\<lparr>status_code = 200,
        json = \<lparr>page_data = Some [\<lparr>profile_id = ''a''\<rparr>, \<lparr>profile_id = ''b''\<rparr>],
                page_links = Some \<lparr>links_next = Some ''B/next?c=1''\<rparr>\<rparr>\<rparr>,
       \<lparr>status_code = 500, json = \<lparr>page_data = None, page_links = None\<rparr>\<rparr>]
     = Some ({|''a'', ''b''|},
         [Print (Fetching_profiles ''No THCA''),
          Get ''B/segments/S1/profiles/'' (Some [(''page[size]'', 100)]), Sleep (1 / 2),
          Get ''B/next?c=1'' None, Print (Error_status 500), Print (Profiles_total 2)])
   \<and> get_segment_profile_ids ''B'' (1 / 2) ''S1'' ''No THCA'' 50000
      [\<lparr>status_code = 200,
        json = \<lparr>page_data = Some [\<lparr>profile_id = ''a''\<rparr>, \<lparr>profile_id = ''b''\<rparr>],
                page_links = Some \<lparr>links_next = None\<rparr>\<rparr>\<rparr>]
     = Some ({|''a'', ''b''|},
         [Print (Fetching_profiles ''No THCA''),
          Get ''B/segments/S1/profiles/'' (Some [(''page[size]'', 100)]),
          Print (Profiles_total 2)])"
  by (simp add: run_simps page_params_def) auto

subsection \<open>Pages with missing keys\<close>

text \<open>
  \<^bold>\<open>Claim C7\<close> (as amended). A 200 page without the key \<^verbatim>\<open>data\<close> adds no
  record and is not the end of the collection: the loop goes on, with the same
  collection, to the next link of the page when it has one. A 200 page without
  \<^verbatim>\<open>links\<close>, or whose \<^verbatim>\<open>links\<close> has no \<^verbatim>\<open>next\<close>, ends the loop, which
  returns what it has accumulated, the records of this page included, and leaves
  the cursor at \<^verbatim>\<open>None\<close>. An empty first page with no next link gives the empty
  collection after one request. Nothing is raised, and this holds for both
  loops. The value returned carries no \<^verbatim>\<open>truncated\<close> flag.
\<close>

theorem missing_keys_end_collection:
  "(u \<noteq> [] \<and> fcard ids < mp \<and> status_code r = 200 \<and> page_data (json r) = None \<longrightarrow>
      profiles_loop mp d (Some u) ids tr (r # rs)
        = profiles_loop mp d (get_next (json r)) ids
            (tr @ page_trace d u ids (get_next (json r))) rs)
   \<and> (u \<noteq> [] \<and> fcard ids < mp \<and> status_code r = 200
        \<and> (page_links (json r) = None
            \<or> (\<exists>l. page_links (json r) = Some l \<and> links_next l = None)) \<longrightarrow>
      profiles_loop mp d (Some u) ids tr (r # rs)
        = Some (None, add_profiles ids (get_data (json r)),
                tr @ page_trace d u (add_profiles ids (get_data (json r))) None))
   \<and> (0 < mp \<and> status_code r = 200 \<and> get_data (json r) = [] \<and> get_next (json r) = None \<longrightarrow>
      get_segment_profile_ids B d sid nm mp (r # rs)
        = Some ({||},
            [Print (Fetching_profiles nm),
             Get (B @ ''/segments/'' @ sid @ ''/profiles/'')
               (request_params (B @ ''/segments/'' @ sid @ ''/profiles/'')),
             Print (Profiles_total 0)]))
   \<and> (v \<noteq> [] \<and> status_code q = 200 \<and> page_data (json q) = None \<longrightarrow>
      segments_loop (Some v) segs tq (q # qs)
        = segments_loop (get_next (json q)) segs
            (tq @ Get v None # (if truthy (get_next (json q)) then [Sleep (3 / 10)] else [])) qs)
   \<and> (v \<noteq> [] \<and> status_code q = 200
        \<and> (page_links (json q) = None
            \<or> (\<exists>l. page_links (json q) = Some l \<and> links_next l = None)) \<longrightarrow>
      segments_loop (Some v) segs tq (q # qs)
        = Some (segs @ map to_segment (get_data (json q)), tq @ [Get v None]))"
proof -
  have nx: "get_next p = None"
    if "page_links p = None \<or> (\<exists>l. page_links p = Some l \<and> links_next l = None)" for p :: "'x page"
    using that by (auto simp: get_next_def)
  have 1: "profiles_loop mp d (Some u) ids tr (r # rs)
        = profiles_loop mp d (get_next (json r)) ids
            (tr @ page_trace d u ids (get_next (json r))) rs"
    if "u \<noteq> []" "fcard ids < mp" "status_code r = 200" "page_data (json r) = None"
    using that by (simp add: profiles_loop_ok get_data_def add_profiles_Nil)
  have 2: "profiles_loop mp d (Some u) ids tr (r # rs)
        = Some (None, add_profiles ids (get_data (json r)),
                tr @ page_trace d u (add_profiles ids (get_data (json r))) None)"
    if "u \<noteq> []" "fcard ids < mp" "status_code r = 200"
      "page_links (json r) = None \<or> (\<exists>l. page_links (json r) = Some l \<and> links_next l = None)"
    using that(1-3) nx [OF that(4)] by (simp add: profiles_loop_ok profiles_loop_exit)
  have 3: "get_segment_profile_ids B d sid nm mp (r # rs)
        = Some ({||},
            [Print (Fetching_profiles nm),
             Get (B @ ''/segments/'' @ sid @ ''/profiles/'')
               (request_params (B @ ''/segments/'' @ sid @ ''/profiles/'')),
             Print (Profiles_total 0)])"
    if "0 < mp" "status_code r = 200" "get_data (json r) = []" "get_next (json r) = None"
    using that
    by (simp add: get_segment_profile_ids_def profiles_loop_ok profiles_loop_exit fcard_fempty
        add_profiles_Nil page_trace_def)
  have 4: "segments_loop (Some v) segs tq (q # qs)
        = segments_loop (get_next (json q)) segs
            (tq @ Get v None # (if truthy (get_next (json q)) then [Sleep (3 / 10)] else [])) qs"
    if "v \<noteq> []" "status_code q = 200" "page_data (json q) = None"
    using that by (simp add: segments_loop_ok get_data_def)
  have 5: "segments_loop (Some v) segs tq (q # qs)
        = Some (segs @ map to_segment (get_data (json q)), tq @ [Get v None])"
    if "v \<noteq> []" "status_code q = 200"
      "page_links (json q) = None \<or> (\<exists>l. page_links (json q) = Some l \<and> links_next l = None)"
    using that(1,2) nx [OF that(3)] by (simp add: segments_loop_ok segments_loop_exit)
  from 1 2 3 4 5 show ?thesis by blast
qed

theorem missing_keys_end_collection_witness:
  "profiles_loop 10 (1 / 2) (Some ''B/x'') {|''a''|} []
      [\<lparr>status_code = 200, json = \<lparr>page_data = None, page_links = None\<rparr>\<rparr>]
     = Some (None, {|''a''|}, [Get ''B/x'' (Some [(''page[size]'', 100)])])
   \<and> get_segment_profile_ids ''B'' (1 / 2) ''S1'' ''No THCA'' 10
      [\<lparr>status_code = 200, json = \<lparr>page_data = None, page_links = None\<rparr>\<rparr>]
     = Some ({||},
         [Print (Fetching_profiles ''No THCA''),
          Get ''B/segments/S1/profiles/'' (Some [(''page[size]'', 100)]),
          Print (Profiles_total 0)])
   \<and> segments_loop (Some ''B/segments/'') [] []
      [\<lparr>status_code = 200, json = \<lparr>page_data = None, page_links = None\<rparr>\<rparr>]
     = Some ([], [Get ''B/segments/'' None])"
  using missing_keys_end_collection [of "''B/x''" "{|''a''|}" 10
      "\<lparr>status_code = 200, json = \<lparr>page_data = None, page_links = None\<rparr>\<rparr>" "1 / 2" "[]" "[]"
      "''B''" "''S1''" "''No THCA''" "''B/segments/''"
      "\<lparr>status_code = 200, json = \<lparr>page_data = None, page_links = None\<rparr>\<rparr>" "[]" "[]" "[]"]
  by (simp add: get_data_def get_next_def page_trace_def request_params_def page_params_def
      fcard_finsert_if fcard_fempty add_profiles_Nil profiles_loop_Nil segments_loop_Nil)

text \<open>
  A first page without \<^verbatim>\<open>data\<close> but with a next link is not treated as the end
  of the collection: the loop requests the next page and returns its record.
\<close>

theorem missing_data_continues_counterexample:
  "get_segment_profile_ids ''B'' (1 / 2) ''S1'' ''No THCA'' 50000
      [\<lparr>status_code = 200,
        json = \<lparr>page_data = None,
                page_links = Some \<lparr>links_next = Some ''B/next?c=1''\<rparr>\<rparr>\<rparr>,
       \<lparr>status_code = 200,
        json = \<lparr>page_data = Some [\<lparr>profile_id = ''a''\<rparr>],
                page_links = Some \<lparr>links_next = None\<rparr>\<rparr>\<rparr>]
     = Some ({|''a''|},
         [Print (Fetching_profiles ''No THCA''),
          Get ''B/segments/S1/profiles/'' (Some [(''page[size]'', 100)]), Sleep (1 / 2),
          Get ''B/next?c=1'' None, Print (Profiles_total 1)])"
  by (simp add: run_simps page_params_def)

subsection \<open>The requests of a run\<close>

lemma requests_append: "requests (a @ b) = requests a @ requests b"
  by (induction a rule: requests.induct) auto

lemma requests_page_trace: "requests (page_trace d u ids nx) = [(u, request_params u)]"
  by (simp add: page_trace_def)

lemma profiles_loop_requests:
  "profiles_loop mp d url ids tr rs = Some (url', ids', tr')
     \<Longrightarrow> \<exists>new. requests tr' = requests tr @ new
          \<and> (\<forall>(v, ps)\<in>set new. ps = request_params v
                \<and> (url = Some v \<or> (\<exists>r\<in>set rs. status_code r = 200 \<and> get_next (json r) = Some v)))
          \<and> (\<forall>v ps rest. new = (v, ps) # rest \<longrightarrow> url = Some v)"
proof (induction rs arbitrary: url ids tr)
  case Nil
  then have "tr' = tr" by (auto simp: profiles_loop_Nil split: if_splits)
  then show ?case by simp
next
  case (Cons r rs)
  show ?case
  proof (cases "truthy url \<and> fcard ids < mp")
    case False
    with Cons.prems have "tr' = tr" by (simp add: profiles_loop_exit)
    then show ?thesis by simp
  next
    case True
    then obtain u where u: "url = Some u" "u \<noteq> []" "fcard ids < mp"
      by (cases url) auto
    consider (limited) "status_code r = 429" | (ok) "status_code r = 200"
      | (err) "status_code r \<noteq> 429" "status_code r \<noteq> 200" by blast
    then show ?thesis
    proof cases
      case limited
      with Cons.prems u have "profiles_loop mp d (Some u) ids
          (tr @ [Get u (request_params u), Print Rate_limited_waiting, Sleep 30]) rs
            = Some (url', ids', tr')"
        by (simp add: profiles_loop_429)
      from Cons.IH [OF this] obtain new where new:
        "requests tr' = requests (tr @ [Get u (request_params u), Print Rate_limited_waiting, Sleep 30]) @ new"
        "\<forall>(v, ps)\<in>set new. ps = request_params v
            \<and> (Some u = Some v \<or> (\<exists>r\<in>set rs. status_code r = 200 \<and> get_next (json r) = Some v))"
        by blast
      let ?new = "(u, request_params u) # new"
      from new(1) have "requests tr' = requests tr @ ?new"
        by (simp add: requests_append)
      moreover from new(2) u have "\<forall>(v, ps)\<in>set ?new. ps = request_params v
            \<and> (url = Some v \<or> (\<exists>r\<in>set (r # rs). status_code r = 200 \<and> get_next (json r) = Some v))"
        by auto
      moreover from u have "\<forall>v ps rest. ?new = (v, ps) # rest \<longrightarrow> url = Some v"
        by simp
      ultimately show ?thesis by blast
    next
      case ok
      let ?ids = "add_profiles ids (get_data (json r))"
      from ok Cons.prems u have "profiles_loop mp d (get_next (json r)) ?ids
          (tr @ page_trace d u ?ids (get_next (json r))) rs = Some (url', ids', tr')"
        by (simp add: profiles_loop_ok)
      from Cons.IH [OF this] obtain new where new:
        "requests tr' = requests (tr @ page_trace d u ?ids (get_next (json r))) @ new"
        "\<forall>(v, ps)\<in>set new. ps = request_params v
            \<and> (get_next (json r) = Some v
                \<or> (\<exists>r\<in>set rs. status_code r = 200 \<and> get_next (json r) = Some v))"
        by blast
      let ?new = "(u, request_params u) # new"
      from new(1) have "requests tr' = requests tr @ ?new"
        by (simp add: requests_append requests_page_trace)
      moreover from new(2) u ok have "\<forall>(v, ps)\<in>set ?new. ps = request_params v
            \<and> (url = Some v \<or> (\<exists>r\<in>set (r # rs). status_code r = 200 \<and> get_next (json r) = Some v))"
        by auto
      moreover from u have "\<forall>v ps rest. ?new = (v, ps) # rest \<longrightarrow> url = Some v"
        by simp
      ultimately show ?thesis by blast
    next
      case err
      with Cons.prems u have "tr' = tr @ [Get u (request_params u), Print (Error_status (status_code r))]"
        by (simp add: profiles_loop_error)
      then have "requests tr' = requests tr @ [(u, request_params u)]"
        by (simp add: requests_append)
      moreover from u have "\<forall>(v, ps)\<in>set [(u, request_params u)]. ps = request_params v
            \<and> (url = Some v \<or> (\<exists>r\<in>set (r # rs). status_code r = 200 \<and> get_next (json r) = Some v))"
        by simp
      moreover from u have "\<forall>v ps rest. [(u, request_params u)] = (v, ps) # rest \<longrightarrow> url = Some v"
        by simp
      ultimately show ?thesis by blast
    qed
  qed
qed

text \<open>
  \<^bold>\<open>Claim C9\<close> (as amended). Every request of a run carries the page-size
  parameter exactly when its URL contains no \<^verbatim>\<open>?\<close>. The first request goes to
  the start URL; the URL of every request is the start URL or, verbatim, a
  \<^verbatim>\<open>next\<close> link of a 200 page of the run.
\<close>

theorem page_size_by_query_string:
  assumes "get_segment_profile_ids B d sid nm mp rs = Some (ids, tr)"
  shows "(\<forall>(v, ps)\<in>set (requests tr).
            ps = (if CHR ''?'' \<in> set v then None else Some [(''page[size]'', 100)])
            \<and> (v = B @ ''/segments/'' @ sid @ ''/profiles/''
                \<or> (\<exists>r\<in>set rs. status_code r = 200 \<and> get_next (json r) = Some v)))
       \<and> (\<forall>v ps rest. requests tr = (v, ps) # rest \<longrightarrow> v = B @ ''/segments/'' @ sid @ ''/profiles/'')"
proof -
  let ?u = "B @ ''/segments/'' @ sid @ ''/profiles/''"
  from assms obtain url' tr' where loop:
    "profiles_loop mp d (Some ?u) {||} [Print (Fetching_profiles nm)] rs = Some (url', ids, tr')"
    and tr: "tr = tr' @ [Print (Profiles_total (fcard ids))]"
    by (auto simp: get_segment_profile_ids_def split: option.splits)
  from profiles_loop_requests [OF loop] obtain new where new:
    "requests tr' = requests [Print (Fetching_profiles nm)] @ new"
    "\<forall>(v, ps)\<in>set new. ps = request_params v
        \<and> (Some ?u = Some v \<or> (\<exists>r\<in>set rs. status_code r = 200 \<and> get_next (json r) = Some v))"
    "\<forall>v ps rest. new = (v, ps) # rest \<longrightarrow> Some ?u = Some v"
    by blast
  from new(1) tr have "requests tr = new"
    by (simp add: requests_append)
  with new(2,3) show ?thesis
    by (auto simp: request_params_def page_params_def)
qed

theorem page_size_by_query_string_witness:
  "get_segment_profile_ids ''B'' (1 / 2) ''S1'' ''No THCA'' 50000
     [\<lparr>status_code = 200,
       json = \<lparr>page_data = Some [\<lparr>profile_id = ''a''\<rparr>],
               page_links = Some \<lparr>links_next = Some ''B/next?c=1''\<rparr>\<rparr>\<rparr>,
      \<lparr>status_code = 200,
       json = \<lparr>page_data = Some [\<lparr>profile_id = ''b''\<rparr>],
               page_links = Some \<lparr>links_next = None\<rparr>\<rparr>\<rparr>]
     = Some ({|''a'', ''b''|},
         [Print (Fetching_profiles ''No THCA''),
          Get ''B/segments/S1/profiles/'' (Some [(''page[size]'', 100)]), Sleep (1 / 2),
          Get ''B/next?c=1'' None, Print (Profiles_total 2)])
   \<and> (\<exists>r\<in>set
     [\<lparr>status_code = 200,
       json = \<lparr>page_data = Some [\<lparr>profile_id = ''a''\<rparr>],
               page_links = Some \<lparr>links_next = Some ''B/next?c=1''\<rparr>\<rparr>\<rparr>,
      \<lparr>status_code = 200,
       json = \<lparr>page_data = Some [\<lparr>profile_id = ''b''\<rparr>],
               page_links = Some \<lparr>links_next = None\<rparr>\<rparr>\<rparr>].
       status_code r = 200 \<and> get_next (json r) = Some ''B/next?c=1'')"
proof -
  let ?rs = "[\<lparr>status_code = 200,
       json = \<lparr>page_data = Some [\<lparr>profile_id = ''a''\<rparr>],
               page_links = Some \<lparr>links_next = Some ''B/next?c=1''\<rparr>\<rparr>\<rparr>,
      \<lparr>status_code = 200,
       json = \<lparr>page_data = Some [\<lparr>profile_id = ''b''\<rparr>],
               page_links = Some \<lparr>links_next = None\<rparr>\<rparr>\<rparr>]"
  let ?tr = "[Print (Fetching_profiles ''No THCA''),
          Get ''B/segments/S1/profiles/'' (Some [(''page[size]'', 100)]), Sleep (1 / 2),
          Get ''B/next?c=1'' None, Print (Profiles_total 2)]"
  have run: "get_segment_profile_ids ''B'' (1 / 2) ''S1'' ''No THCA'' 50000 ?rs
     = Some ({|''a'', ''b''|}, ?tr)"
    by (simp add: run_simps page_params_def) auto
  have "(''B/next?c=1'', None) \<in> set (requests ?tr)"
    by simp
  with page_size_by_query_string [OF run]
  have "''B/next?c=1'' = ''B'' @ ''/segments/'' @ ''S1'' @ ''/profiles/''
      \<or> (\<exists>r\<in>set ?rs. status_code r = 200 \<and> get_next (json r) = Some ''B/next?c=1'')"
    by blast
  then have "\<exists>r\<in>set ?rs. status_code r = 200 \<and> get_next (json r) = Some ''B/next?c=1''"
    by simp
  with run show ?thesis by blast
qed

text \<open>
  A \<^verbatim>\<open>next\<close> link without a query string: the second request carries the
  page-size parameter again.
\<close>

theorem page_size_reapplied_counterexample:
  "get_segment_profile_ids ''B'' (1 / 2) ''S1'' ''No THCA'' 50000
     [\<lparr>status_code = 200,
       json = \<lparr>page_data = Some [\<lparr>profile_id = ''a''\<rparr>],
               page_links = Some \<lparr>links_next = Some ''B/segments/S1/profiles/page2''\<rparr>\<rparr>\<rparr>,
      \<lparr>status_code = 200,
       json = \<lparr>page_data = Some [\<lparr>profile_id = ''b''\<rparr>],
               page_links = Some \<lparr>links_next = None\<rparr>\<rparr>\<rparr>]
     = Some ({|''a'', ''b''|},
         [Print (Fetching_profiles ''No THCA''),
          Get ''B/segments/S1/profiles/'' (Some [(''page[size]'', 100)]), Sleep (1 / 2),
          Get ''B/segments/S1/profiles/page2'' (Some [(''page[size]'', 100)]),
          Print (Profiles_total 2)])"
  by (simp add: run_simps page_params_def) auto

subsection \<open>The cap on the number of profiles\<close>

lemma add_profiles_fset_of_list: "add_profiles {||} ps = fset_of_list (map profile_id ps)"
proof -
  have "fset (add_profiles {||} ps) = fset (fset_of_list (map profile_id ps))"
    by (simp add: fset_add_profiles fset_of_list.rep_eq)
  then show ?thesis by (simp only: fset_inject)
qed

lemma fcard_add_profiles_fresh:
  assumes "distinct (map profile_id ps)" "fset S \<inter> profile_id ` set ps = {}"
  shows "fcard (add_profiles S ps) = fcard S + length ps"
proof -
  have "card (fset S \<union> profile_id ` set ps) = card (fset S) + card (profile_id ` set ps)"
    using assms(2) by (simp add: card_Un_disjoint)
  moreover have "card (profile_id ` set ps) = length ps"
    using distinct_card [OF assms(1)] by simp
  ultimately show ?thesis
    by (simp add: fcard.rep_eq fset_add_profiles)
qed

lemma fetched_empty_pages:
  "\<forall>r\<in>set pages. length (get_data (json r)) = 0 \<Longrightarrow> fetched pages = []"
  by (induction pages) (auto simp: fetched_Nil fetched_Cons)

lemma profiles_loop_cap:
  assumes "\<forall>r\<in>set pages. status_code r = 200 \<and> length (get_data (json r)) = p
              \<and> truthy (get_next (json r))"
    and "distinct (map profile_id (fetched pages))"
    and "fset ids \<inter> profile_id ` set (fetched pages) = {}"
    and "mp = fcard ids + length pages * p"
    and "truthy url"
  shows "\<exists>url' tr'. truthy url' \<and> (\<forall>more. profiles_loop mp d url ids tr (pages @ more)
            = Some (url', add_profiles ids (fetched pages), tr'))"
  using assms
proof (induction pages arbitrary: url ids tr)
  case Nil
  then have "\<forall>more. profiles_loop mp d url ids tr ([] @ more) = Some (url, add_profiles ids (fetched []), tr)"
    by (simp add: profiles_loop_exit fetched_Nil add_profiles_Nil)
  with Nil.prems(5) show ?case by blast
next
  case (Cons r pages)
  show ?case
  proof (cases "p = 0")
    case True
    with Cons.prems(1) have "fetched (r # pages) = []"
      by (intro fetched_empty_pages) simp
    moreover from True Cons.prems(4) have "\<not> (truthy url \<and> fcard ids < mp)" by simp
    ultimately have "\<forall>more. profiles_loop mp d url ids tr ((r # pages) @ more)
        = Some (url, add_profiles ids (fetched (r # pages)), tr)"
      by (simp add: profiles_loop_exit add_profiles_Nil)
    with Cons.prems(5) show ?thesis by blast
  next
    case False
    let ?ps = "get_data (json r)"
    let ?ids = "add_profiles ids ?ps"
    from Cons.prems(1) have r: "status_code r = 200" "length ?ps = p" "truthy (get_next (json r))"
      by simp_all
    from r(1) have f: "fetched (r # pages) = ?ps @ fetched pages"
      by (simp add: fetched_Cons)
    from Cons.prems(2) f have d: "distinct (map profile_id ?ps)"
      "distinct (map profile_id (fetched pages))"
      "profile_id ` set ?ps \<inter> profile_id ` set (fetched pages) = {}"
      by auto
    from Cons.prems(3) f have dis: "fset ids \<inter> profile_id ` set ?ps = {}"
      "fset ids \<inter> profile_id ` set (fetched pages) = {}"
      by auto
    from d(1) dis(1) r(2) have card: "fcard ?ids = fcard ids + p"
      by (simp add: fcard_add_profiles_fresh)
    from False Cons.prems(4) have lt: "fcard ids < mp" by simp
    from Cons.prems(5) obtain u where u: "url = Some u" "u \<noteq> []" by (cases url) auto
    have 1: "\<forall>r\<in>set pages. status_code r = 200 \<and> length (get_data (json r)) = p
              \<and> truthy (get_next (json r))"
      using Cons.prems(1) by simp
    have 3: "fset ?ids \<inter> profile_id ` set (fetched pages) = {}"
      using d(3) dis(2) by (auto simp: fset_add_profiles)
    have 4: "mp = fcard ?ids + length pages * p"
      using Cons.prems(4) card by simp
    from Cons.IH [OF 1 d(2) 3 4 r(3), of "tr @ page_trace d u ?ids (get_next (json r))"]
    obtain url' tr' where res: "truthy url'"
      "\<forall>more. profiles_loop mp d (get_next (json r)) ?ids
          (tr @ page_trace d u ?ids (get_next (json r))) (pages @ more)
        = Some (url', add_profiles ?ids (fetched pages), tr')"
      by blast
    from res(2) u lt r(1) f have "\<forall>more. profiles_loop mp d url ids tr ((r # pages) @ more)
        = Some (url', add_profiles ids (fetched (r # pages)), tr')"
      by (simp add: profiles_loop_ok add_profiles_append)
    with res(1) show ?thesis by blast
  qed
qed

lemma fetched_all_ok:
  "\<forall>r\<in>set ps. status_code r = 200 \<Longrightarrow> fetched ps = concat (map (\<lambda>r. get_data (json r)) ps)"
  by (induction ps) (simp_all add: fetched_Nil fetched_Cons)

lemma fcard_add_profiles_mono: "fcard ids \<le> fcard (add_profiles ids ps)"
proof -
  have "fset ids \<subseteq> fset (add_profiles ids ps)"
    by (simp add: fset_add_profiles)
  then have "card (fset ids) \<le> card (fset (add_profiles ids ps))"
    by (intro card_mono) simp_all
  then show ?thesis by (simp add: fcard.rep_eq)
qed

lemma profiles_loop_pages:
  assumes "\<forall>r\<in>set ps. status_code r = 200"
    and "ps \<noteq> []"
    and "fcard (add_profiles ids (fetched (butlast ps))) < N"
    and "\<forall>r\<in>set (butlast ps). truthy (get_next (json r))"
    and "truthy url"
  shows "\<exists>T. \<forall>more. profiles_loop N d url ids tr (ps @ more)
           = profiles_loop N d (get_next (json (last ps))) (add_profiles ids (fetched ps))
               (tr @ T) more"
  using assms
proof (induction ps arbitrary: url ids tr)
  case Nil
  then show ?case by simp
next
  case (Cons r ps)
  let ?ids = "add_profiles ids (get_data (json r))"
  let ?nx = "get_next (json r)"
  from Cons.prems(5) obtain u where u: "url = Some u" "u \<noteq> []" by (cases url) auto
  from Cons.prems(1) have ok: "status_code r = 200" by simp
  have "fcard ids \<le> fcard (add_profiles ids (fetched (butlast (r # ps))))"
    by (rule fcard_add_profiles_mono)
  with Cons.prems(3) have lt: "fcard ids < N" by simp
  have step: "profiles_loop N d url ids tr ((r # ps) @ more)
      = profiles_loop N d ?nx ?ids (tr @ page_trace d u ?ids ?nx) (ps @ more)" for more
    using u lt ok by (simp add: profiles_loop_ok)
  show ?case
  proof (cases "ps = []")
    case True
    with ok have "fetched (r # ps) = get_data (json r)"
      by (simp add: fetched_Cons fetched_Nil)
    with step True have "\<forall>more. profiles_loop N d url ids tr ((r # ps) @ more)
        = profiles_loop N d (get_next (json (last (r # ps)))) (add_profiles ids (fetched (r # ps)))
            (tr @ page_trace d u ?ids ?nx) more"
      by simp
    then show ?thesis by blast
  next
    case False
    then have bl: "butlast (r # ps) = r # butlast ps" by simp
    from Cons.prems(3) ok have 3: "fcard (add_profiles ?ids (fetched (butlast ps))) < N"
      unfolding bl by (simp add: fetched_Cons add_profiles_append)
    from Cons.prems(4) have 4: "\<forall>r\<in>set (butlast ps). truthy (get_next (json r))"
      and 5: "truthy ?nx"
      unfolding bl by simp_all
    from Cons.prems(1) have 1: "\<forall>r\<in>set ps. status_code r = 200" by simp
    from Cons.IH [OF 1 False 3 4 5, of "tr @ page_trace d u ?ids ?nx"]
    obtain T where T: "\<forall>more. profiles_loop N d ?nx ?ids (tr @ page_trace d u ?ids ?nx) (ps @ more)
        = profiles_loop N d (get_next (json (last ps))) (add_profiles ?ids (fetched ps))
            ((tr @ page_trace d u ?ids ?nx) @ T) more"
      by blast
    from ok have f: "add_profiles ?ids (fetched ps) = add_profiles ids (fetched (r # ps))"
      by (simp add: fetched_Cons add_profiles_append)
    from T step False have "\<forall>more. profiles_loop N d url ids tr ((r # ps) @ more)
        = profiles_loop N d (get_next (json (last (r # ps)))) (add_profiles ids (fetched (r # ps)))
            (tr @ (page_trace d u ?ids ?nx @ T)) more"
      unfolding f by simp
    then show ?thesis by blast
  qed
qed

lemma profiles_loop_reaches_cap:
  assumes "\<forall>r\<in>set ps. status_code r = 200"
    and "\<forall>r\<in>set (butlast ps). truthy (get_next (json r))"
    and "fcard (add_profiles ids (fetched (butlast ps))) < N"
    and "N \<le> fcard (add_profiles ids (fetched ps))"
    and "truthy url"
  shows "\<exists>tr'. \<forall>more. profiles_loop N d url ids tr (ps @ more)
           = Some (get_next (json (last ps)), add_profiles ids (fetched ps), tr')"
proof -
  have ne: "ps \<noteq> []"
  proof
    assume "ps = []"
    with assms(3,4) show False by simp
  qed
  from profiles_loop_pages [OF assms(1) ne assms(3) assms(2) assms(5), of d tr]
  obtain T where "\<forall>more. profiles_loop N d url ids tr (ps @ more)
           = profiles_loop N d (get_next (json (last ps))) (add_profiles ids (fetched ps))
               (tr @ T) more"
    by blast
  with assms(4) have "\<forall>more. profiles_loop N d url ids tr (ps @ more)
           = Some (get_next (json (last ps)), add_profiles ids (fetched ps), tr @ T)"
    by (simp add: profiles_loop_exit)
  then show ?thesis by blast
qed

text \<open>
  \<^bold>\<open>Claim C5\<close> (as amended). For every cap \<open>N\<close>: once the set holds \<open>N\<close> or more
  identifiers the loop halts without another request, in every state. For every
  resource whose pages come with status 200 and a next link, the loop halts
  with the first page that brings the number of distinct identifiers to \<open>N\<close> or
  more, whatever pages follow, and leaves the cursor set; the function returns
  the identifiers of the pages up to that one. It returns exactly \<open>N\<close> identifiers
  when every page holds \<open>p\<close> records, all distinct, and \<open>N\<close> is \<open>length pages * p\<close>.
  The value returned is the set alone, with no \<^verbatim>\<open>truncated\<close> flag: a run over
  any resource \<open>ended\<close> that holds the same records on the same pages and no
  further page, so one that ends where the capped run stopped, returns the same
  value.
\<close>

theorem cap_halts_collection:
  "(\<not> fcard ids < N \<longrightarrow> profiles_loop N d url ids tr rs = Some (url, ids, tr))
   \<and> ((\<forall>r\<in>set pages. status_code r = 200 \<and> truthy (get_next (json r)))
        \<and> fcard (fset_of_list (map profile_id (fetched (butlast pages)))) < N
        \<and> N \<le> fcard (fset_of_list (map profile_id (fetched pages))) \<longrightarrow>
       (\<exists>url' tr'. truthy url' \<and> (\<forall>more.
            profiles_loop N d (Some (B @ ''/segments/'' @ sid @ ''/profiles/''))
              {||} [Print (Fetching_profiles nm)] (pages @ more)
            = Some (url', fset_of_list (map profile_id (fetched pages)), tr')))
       \<and> (\<exists>t. \<forall>more. get_segment_profile_ids B d sid nm N (pages @ more)
            = Some (fset_of_list (map profile_id (fetched pages)), t))
       \<and> (\<forall>ended. (\<forall>r\<in>set ended. status_code r = 200)
              \<and> (\<forall>r\<in>set (butlast ended). truthy (get_next (json r)))
              \<and> map (\<lambda>r. get_data (json r)) ended = map (\<lambda>r. get_data (json r)) pages \<longrightarrow>
            map_option fst (get_segment_profile_ids B d sid nm N ended)
              = Some (fset_of_list (map profile_id (fetched pages)))))
   \<and> ((\<forall>r\<in>set pages. status_code r = 200 \<and> length (get_data (json r)) = p
              \<and> truthy (get_next (json r)))
        \<and> distinct (map profile_id (fetched pages)) \<and> N = length pages * p \<longrightarrow>
       (\<exists>url' tr'. truthy url' \<and> (\<forall>more.
            profiles_loop N d (Some (B @ ''/segments/'' @ sid @ ''/profiles/''))
              {||} [Print (Fetching_profiles nm)] (pages @ more)
            = Some (url', fset_of_list (map profile_id (fetched pages)), tr')))
       \<and> (\<exists>t. \<forall>more. get_segment_profile_ids B d sid nm N (pages @ more)
            = Some (fset_of_list (map profile_id (fetched pages)), t))
       \<and> fcard (fset_of_list (map profile_id (fetched pages))) = N)"
proof -
  let ?u = "B @ ''/segments/'' @ sid @ ''/profiles/''"
  let ?tr = "[Print (Fetching_profiles nm)]"
  let ?ids = "fset_of_list (map profile_id (fetched pages))"
  have tu: "truthy (Some ?u)" by simp
  have wrap: "\<exists>t. \<forall>more. get_segment_profile_ids B d sid nm N (ps @ more) = Some (S, t)"
    if "\<forall>more. profiles_loop N d (Some ?u) {||} ?tr (ps @ more) = Some (url', S, tr')"
    for ps S url' tr'
    using that by (simp add: get_segment_profile_ids_def)
  have A: "profiles_loop N d url ids tr rs = Some (url, ids, tr)" if "\<not> fcard ids < N"
    using that by (simp add: profiles_loop_exit)
  have B1: "\<exists>url' tr'. truthy url' \<and> (\<forall>more.
            profiles_loop N d (Some ?u) {||} ?tr (pages @ more) = Some (url', ?ids, tr'))"
    if h: "\<forall>r\<in>set pages. status_code r = 200 \<and> truthy (get_next (json r))"
      "fcard (fset_of_list (map profile_id (fetched (butlast pages)))) < N"
      "N \<le> fcard ?ids"
  proof -
    from h(2,3) have ne: "pages \<noteq> []" by auto
    from h(1) have 1: "\<forall>r\<in>set pages. status_code r = 200" by simp
    from h(1) have 2: "\<forall>r\<in>set (butlast pages). truthy (get_next (json r))"
      by (auto dest: in_set_butlastD)
    from ne h(1) have 3: "truthy (get_next (json (last pages)))" by simp
    from profiles_loop_reaches_cap [OF 1 2 _ _ tu, of "{||}" N d ?tr] h(2,3)
    obtain tr' where "\<forall>more. profiles_loop N d (Some ?u) {||} ?tr (pages @ more)
        = Some (get_next (json (last pages)), ?ids, tr')"
      by (auto simp: add_profiles_fset_of_list)
    with 3 show ?thesis by blast
  qed
  have B3: "map_option fst (get_segment_profile_ids B d sid nm N ended) = Some ?ids"
    if h: "fcard (fset_of_list (map profile_id (fetched (butlast pages)))) < N"
      "N \<le> fcard ?ids"
      "\<forall>r\<in>set pages. status_code r = 200 \<and> truthy (get_next (json r))"
      "\<forall>r\<in>set ended. status_code r = 200"
      "\<forall>r\<in>set (butlast ended). truthy (get_next (json r))"
      "map (\<lambda>r. get_data (json r)) ended = map (\<lambda>r. get_data (json r)) pages"
    for ended
  proof -
    from h(3) have okp: "\<forall>r\<in>set pages. status_code r = 200"
      and okbp: "\<forall>r\<in>set (butlast pages). status_code r = 200"
      by (auto dest: in_set_butlastD)
    from h(4) have okbe: "\<forall>r\<in>set (butlast ended). status_code r = 200"
      by (auto dest: in_set_butlastD)
    from h(6) have f: "fetched ended = fetched pages"
      by (simp add: fetched_all_ok [OF h(4)] fetched_all_ok [OF okp])
    have "map (\<lambda>r. get_data (json r)) (butlast ended)
        = map (\<lambda>r. get_data (json r)) (butlast pages)"
      using h(6) by (simp add: map_butlast)
    then have fb: "fetched (butlast ended) = fetched (butlast pages)"
      by (simp add: fetched_all_ok [OF okbe] fetched_all_ok [OF okbp])
    from profiles_loop_reaches_cap [OF h(4) h(5) _ _ tu, of "{||}" N d ?tr] h(1,2)
    obtain tr' where "\<forall>more. profiles_loop N d (Some ?u) {||} ?tr (ended @ more)
        = Some (get_next (json (last ended)), ?ids, tr')"
      by (auto simp: add_profiles_fset_of_list f fb)
    then have "profiles_loop N d (Some ?u) {||} ?tr ended
        = Some (get_next (json (last ended)), ?ids, tr')"
      by (metis append_Nil2)
    then show ?thesis by (simp add: get_segment_profile_ids_def)
  qed
  have C1: "\<exists>url' tr'. truthy url' \<and> (\<forall>more.
            profiles_loop N d (Some ?u) {||} ?tr (pages @ more) = Some (url', ?ids, tr'))"
    if h: "\<forall>r\<in>set pages. status_code r = 200 \<and> length (get_data (json r)) = p
              \<and> truthy (get_next (json r))"
      "distinct (map profile_id (fetched pages))" "N = length pages * p"
    using profiles_loop_cap [OF h(1,2) _ _ tu, of "{||}" N d ?tr] h(3)
    by (auto simp: fcard_fempty add_profiles_fset_of_list)
  have C3: "fcard ?ids = N"
    if h: "\<forall>r\<in>set pages. status_code r = 200 \<and> length (get_data (json r)) = p
              \<and> truthy (get_next (json r))"
      "distinct (map profile_id (fetched pages))" "N = length pages * p"
  proof -
    have "length (fetched pages) = length pages * p"
      using h(1) by (induction pages) (auto simp: fetched_Nil fetched_Cons)
    with fcard_add_profiles_fresh [OF h(2), of "{||}"] h(3) show ?thesis
      by (simp add: add_profiles_fset_of_list fcard_fempty)
  qed
  show ?thesis
  proof (intro conjI impI allI)
    assume "\<not> fcard ids < N"
    then show "profiles_loop N d url ids tr rs = Some (url, ids, tr)" by (rule A)
  next
    assume h: "(\<forall>r\<in>set pages. status_code r = 200 \<and> truthy (get_next (json r)))
        \<and> fcard (fset_of_list (map profile_id (fetched (butlast pages)))) < N
        \<and> N \<le> fcard ?ids"
    then show "\<exists>url' tr'. truthy url' \<and> (\<forall>more.
            profiles_loop N d (Some ?u) {||} ?tr (pages @ more) = Some (url', ?ids, tr'))"
      using B1 by blast
  next
    assume h: "(\<forall>r\<in>set pages. status_code r = 200 \<and> truthy (get_next (json r)))
        \<and> fcard (fset_of_list (map profile_id (fetched (butlast pages)))) < N
        \<and> N \<le> fcard ?ids"
    with B1 obtain url' tr' where "\<forall>more.
            profiles_loop N d (Some ?u) {||} ?tr (pages @ more) = Some (url', ?ids, tr')"
      by blast
    then show "\<exists>t. \<forall>more. get_segment_profile_ids B d sid nm N (pages @ more) = Some (?ids, t)"
      by (rule wrap)
  next
    fix ended :: "profile response list"
    assume h: "(\<forall>r\<in>set pages. status_code r = 200 \<and> truthy (get_next (json r)))
        \<and> fcard (fset_of_list (map profile_id (fetched (butlast pages)))) < N
        \<and> N \<le> fcard ?ids"
      and e: "(\<forall>r\<in>set ended. status_code r = 200)
              \<and> (\<forall>r\<in>set (butlast ended). truthy (get_next (json r)))
              \<and> map (\<lambda>r. get_data (json r)) ended = map (\<lambda>r. get_data (json r)) pages"
    then show "map_option fst (get_segment_profile_ids B d sid nm N ended) = Some ?ids"
      using B3 [of ended] by blast
  next
    assume h: "(\<forall>r\<in>set pages. status_code r = 200 \<and> length (get_data (json r)) = p
              \<and> truthy (get_next (json r)))
        \<and> distinct (map profile_id (fetched pages)) \<and> N = length pages * p"
    then show "\<exists>url' tr'. truthy url' \<and> (\<forall>more.
            profiles_loop N d (Some ?u) {||} ?tr (pages @ more) = Some (url', ?ids, tr'))"
      using C1 by blast
  next
    assume h: "(\<forall>r\<in>set pages. status_code r = 200 \<and> length (get_data (json r)) = p
              \<and> truthy (get_next (json r)))
        \<and> distinct (map profile_id (fetched pages)) \<and> N = length pages * p"
    with C1 obtain url' tr' where "\<forall>more.
            profiles_loop N d (Some ?u) {||} ?tr (pages @ more) = Some (url', ?ids, tr')"
      by blast
    then show "\<exists>t. \<forall>more. get_segment_profile_ids B d sid nm N (pages @ more) = Some (?ids, t)"
      by (rule wrap)
  next
    assume h: "(\<forall>r\<in>set pages. status_code r = 200 \<and> length (get_data (json r)) = p
              \<and> truthy (get_next (json r)))
        \<and> distinct (map profile_id (fetched pages)) \<and> N = length pages * p"
    then show "fcard ?ids = N" using C3 by blast
  qed
qed

text \<open>
  A set of three identifiers under the cap 2; two pages of two records under
  the cap 3, which the second page overshoots, and under the cap 4.
\<close>

theorem cap_halts_collection_witness:
  "profiles_loop 2 (1 / 2) (Some ''B/next?c=1'') {|''a'', ''b'', ''c''|} []
      [\<lparr>status_code = 200,
        json = \<lparr>page_data = Some [\<lparr>profile_id = ''c''\<rparr>, \<lparr>profile_id = ''d''\<rparr>],
                page_links = Some \<lparr>links_next = Some ''B/next?c=2''\<rparr>\<rparr>\<rparr>]
     = Some (Some ''B/next?c=1'', {|''a'', ''b'', ''c''|}, [])
   \<and> (\<exists>t. \<forall>more. get_segment_profile_ids ''B'' (1 / 2) ''S1'' ''No THCA'' 3
      ([\<lparr>status_code = 200,
        json = \<lparr>page_data = Some [\<lparr>profile_id = ''a''\<rparr>, \<lparr>profile_id = ''b''\<rparr>],
                page_links = Some \<lparr>links_next = Some ''B/next?c=1''\<rparr>\<rparr>\<rparr>,
       \<lparr>status_code = 200,
        json = \<lparr>page_data = Some [\<lparr>profile_id = ''c''\<rparr>, \<lparr>profile_id = ''d''\<rparr>],
                page_links = Some \<lparr>links_next = Some ''B/next?c=2''\<rparr>\<rparr>\<rparr>] @ more)
     = Some ({|''a'', ''b'', ''c'', ''d''|}, t))
   \<and> map_option fst (get_segment_profile_ids ''B'' (1 / 2) ''S1'' ''No THCA'' 3
      [\<lparr>status_code = 200,
        json = \<lparr>page_data = Some [\<lparr>profile_id = ''a''\<rparr>, \<lparr>profile_id = ''b''\<rparr>],
                page_links = Some \<lparr>links_next = Some ''B/next?c=1''\<rparr>\<rparr>\<rparr>,
       \<lparr>status_code = 200,
        json = \<lparr>page_data = Some [\<lparr>profile_id = ''c''\<rparr>, \<lparr>profile_id = ''d''\<rparr>],
                page_links = Some \<lparr>links_next = None\<rparr>\<rparr>\<rparr>])
     = Some {|''a'', ''b'', ''c'', ''d''|}
   \<and> (\<exists>t. \<forall>more. get_segment_profile_ids ''B'' (1 / 2) ''S1'' ''No THCA'' 4
      ([\<lparr>status_code = 200,
        json = \<lparr>page_data = Some [\<lparr>profile_id = ''a''\<rparr>, \<lparr>profile_id = ''b''\<rparr>],
                page_links = Some \<lparr>links_next = Some ''B/next?c=1''\<rparr>\<rparr>\<rparr>,
       \<lparr>status_code = 200,
        json = \<lparr>page_data = Some [\<lparr>profile_id = ''c''\<rparr>, \<lparr>profile_id = ''d''\<rparr>],
                page_links = Some \<lparr>links_next = Some ''B/next?c=2''\<rparr>\<rparr>\<rparr>] @ more)
     = Some ({|''a'', ''b'', ''c'', ''d''|}, t))
   \<and> fcard {|''a'', ''b'', ''c'', ''d''|} = 4"
proof -
  let ?pages = "[\<lparr>status_code = 200,
        json = \<lparr>page_data = Some [\<lparr>profile_id = ''a''\<rparr>, \<lparr>profile_id = ''b''\<rparr>],
                page_links = Some \<lparr>links_next = Some ''B/next?c=1''\<rparr>\<rparr>\<rparr>,
       \<lparr>status_code = 200,
        json = \<lparr>page_data = Some [\<lparr>profile_id = ''c''\<rparr>, \<lparr>profile_id = ''d''\<rparr>],
                page_links = Some \<lparr>links_next = Some ''B/next?c=2''\<rparr>\<rparr>\<rparr>]"
  let ?ended = "[\<lparr>status_code = 200,
        json = \<lparr>page_data = Some [\<lparr>profile_id = ''a''\<rparr>, \<lparr>profile_id = ''b''\<rparr>],
                page_links = Some \<lparr>links_next = Some ''B/next?c=1''\<rparr>\<rparr>\<rparr>,
       \<lparr>status_code = 200,
        json = \<lparr>page_data = Some [\<lparr>profile_id = ''c''\<rparr>, \<lparr>profile_id = ''d''\<rparr>],
                page_links = Some \<lparr>links_next = None\<rparr>\<rparr>\<rparr>]"
  have ids: "fset_of_list (map profile_id (fetched ?pages)) = {|''a'', ''b'', ''c'', ''d''|}"
    by (simp add: fetched_def get_data_def)
  have c4: "fcard {|''a'', ''b'', ''c'', ''d''|} = 4"
    by (simp add: fcard_finsert_if fcard_fempty)
  have h1: "\<forall>r\<in>set ?pages. status_code r = 200 \<and> truthy (get_next (json r))"
    by (simp add: get_next_def)
  have h2: "fcard (fset_of_list (map profile_id (fetched (butlast ?pages)))) < 3"
    by (simp add: fetched_def get_data_def fcard_finsert_if fcard_fempty)
  have h3: "3 \<le> fcard (fset_of_list (map profile_id (fetched ?pages)))"
    unfolding ids c4 by simp
  have e: "(\<forall>r\<in>set ?ended. status_code r = 200)
      \<and> (\<forall>r\<in>set (butlast ?ended). truthy (get_next (json r)))
      \<and> map (\<lambda>r. get_data (json r)) ?ended = map (\<lambda>r. get_data (json r)) ?pages"
    by (simp add: get_next_def get_data_def)
  have u: "\<forall>r\<in>set ?pages. status_code r = 200 \<and> length (get_data (json r)) = 2
      \<and> truthy (get_next (json r))"
    by (simp add: get_next_def get_data_def)
  have dist: "distinct (map profile_id (fetched ?pages))"
    by (simp add: fetched_def get_data_def)
  have n4: "(4::nat) = length ?pages * 2"
    by simp
  have a: "\<not> fcard {|''a'', ''b'', ''c''|} < 2"
    by (simp add: fcard_finsert_if fcard_fempty)
  note three = cap_halts_collection [where N = 3 and pages = ?pages and d = "1 / 2"
      and B = "''B''" and sid = "''S1''" and nm = "''No THCA''" and ids = "{||}"
      and url = None and tr = "[]" and rs = "[]" and p = 2, unfolded ids]
  note four = cap_halts_collection [where N = 4 and pages = ?pages and d = "1 / 2"
      and B = "''B''" and sid = "''S1''" and nm = "''No THCA''" and ids = "{||}"
      and url = None and tr = "[]" and rs = "[]" and p = 2, unfolded ids]
  note two = cap_halts_collection [where N = 2 and ids = "{|''a'', ''b'', ''c''|}"
      and d = "1 / 2" and url = "Some ''B/next?c=1''" and tr = "[]"
      and rs = "[\<lparr>status_code = 200,
        json = \<lparr>page_data = Some [\<lparr>profile_id = ''c''\<rparr>, \<lparr>profile_id = ''d''\<rparr>],
                page_links = Some \<lparr>links_next = Some ''B/next?c=2''\<rparr>\<rparr>\<rparr>]"
      and pages = "[]" and B = "''B''" and sid = "''S1''" and nm = "''No THCA''" and p = 2]
  from two a have w1: "profiles_loop 2 (1 / 2) (Some ''B/next?c=1'') {|''a'', ''b'', ''c''|} []
      [\<lparr>status_code = 200,
        json = \<lparr>page_data = Some [\<lparr>profile_id = ''c''\<rparr>, \<lparr>profile_id = ''d''\<rparr>],
                page_links = Some \<lparr>links_next = Some ''B/next?c=2''\<rparr>\<rparr>\<rparr>]
     = Some (Some ''B/next?c=1'', {|''a'', ''b'', ''c''|}, [])"
    by blast
  from three h1 h2 h3 [unfolded ids]
  have w2: "\<exists>t. \<forall>more. get_segment_profile_ids ''B'' (1 / 2) ''S1'' ''No THCA'' 3 (?pages @ more) = Some ({|''a'', ''b'', ''c'', ''d''|}, t)"
    by blast
  from three h1 h2 h3 [unfolded ids] e
  have w3: "map_option fst (get_segment_profile_ids ''B'' (1 / 2) ''S1'' ''No THCA'' 3 ?ended) = Some {|''a'', ''b'', ''c'', ''d''|}"
    by blast
  from four u dist [unfolded ids] n4
  have w4: "\<exists>t. \<forall>more. get_segment_profile_ids ''B'' (1 / 2) ''S1'' ''No THCA'' 4 (?pages @ more) = Some ({|''a'', ''b'', ''c'', ''d''|}, t)"
    by blast
  from w1 w2 w3 w4 c4 show ?thesis by blast
qed

text \<open>
  With the cap 2, a resource of four records and a resource of two records give
  the same returned value: nothing in it marks the first one as truncated.
\<close>

theorem truncated_flag_counterexample:
  "get_segment_profile_ids ''B'' (1 / 2) ''S1'' ''No THCA'' 2
     [\<lparr>status_code = 200,
       json = \<lparr>page_data = Some [\<lparr>profile_id = ''a''\<rparr>, \<lparr>profile_id = ''b''\<rparr>],
               page_links = Some \<lparr>links_next = Some ''B/next?c=1''\<rparr>\<rparr>\<rparr>,
      \<lparr>status_code = 200,
       json = \<lparr>page_data = Some [\<lparr>profile_id = ''c''\<rparr>, \<lparr>profile_id = ''d''\<rparr>],
               page_links = Some \<lparr>links_next = None\<rparr>\<rparr>\<rparr>]
     = Some ({|''a'', ''b''|},
         [Print (Fetching_profiles ''No THCA''),
          Get ''B/segments/S1/profiles/'' (Some [(''page[size]'', 100)]), Sleep (1 / 2),
          Print (Profiles_total 2)])
   \<and> get_segment_profile_ids ''B'' (1 / 2) ''S1'' ''No THCA'' 2
     [\<lparr>status_code = 200,
       json = \<lparr>page_data = Some [\<lparr>profile_id = ''a''\<rparr>, \<lparr>profile_id = ''b''\<rparr>],
               page_links = Some \<lparr>links_next = None\<rparr>\<rparr>\<rparr>]
     = Some ({|''a'', ''b''|},
         [Print (Fetching_profiles ''No THCA''),
          Get ''B/segments/S1/profiles/'' (Some [(''page[size]'', 100)]),
          Print (Profiles_total 2)])"
  by (simp add: run_simps page_params_def) auto

section \<open>Properties of the segment lookup\<close>

lemma find_None_iff: "List.find P xs = None \<longleftrightarrow> (\<forall>x\<in>set xs. \<not> P x)"
  by (induction xs) auto

lemma find_Some_holds: "List.find P xs = Some x \<Longrightarrow> x \<in> set xs \<and> P x"
  by (induction xs) (auto split: if_splits)

lemma find_first: "\<forall>t\<in>set pre. \<not> P t \<Longrightarrow> P s \<Longrightarrow> List.find P (pre @ s # post) = Some s"
  by (induction pre) auto

lemma ascii_lower_examples:
  "ascii_lower ''No Delta 8'' = ''no delta 8''"
  "ascii_lower ''No THCA'' = ''no thca''"
  "ascii_lower ''NO thca'' = ''no thca''"
  "ascii_lower ''delta 8'' = ''delta 8''"
  "ascii_lower ''no'' = ''no''"
  "ascii_lower ''Other'' = ''other''"
  "ascii_lower ''VIP'' = ''vip''"
  "ascii_lower ''Vip'' = ''vip''"
  "ascii_lower ''vip'' = ''vip''"
  by (simp_all add: ascii_lower_def ascii_lower_char_def)

text \<open>
  \<^bold>\<open>Claim C2.\<close> When some segment's name equals the search string after
  lower-casing both, \<open>find_segment\<close> returns a segment of the list with such a
  name. When none does: if exactly one entry of the list has a lower-cased name
  that contains the lower-cased search string, it returns that entry; if two or
  more entries do, or none, it returns \<open>None\<close>.
\<close>

theorem find_segment_spec:
  "((\<exists>s\<in>set segments. lower (seg_name s) = lower search) \<longrightarrow>
      (\<exists>s\<in>set segments. find_segment lower segments search = Some s
          \<and> lower (seg_name s) = lower search))
   \<and> (\<not> (\<exists>s\<in>set segments. lower (seg_name s) = lower search) \<longrightarrow>
        (\<forall>m. filter (\<lambda>s. str_in (lower search) (lower (seg_name s))) segments = [m]
            \<longrightarrow> find_segment lower segments search = Some m)
      \<and> (length (filter (\<lambda>s. str_in (lower search) (lower (seg_name s))) segments) \<noteq> 1
            \<longrightarrow> find_segment lower segments search = None))"
proof (cases "List.find (\<lambda>s. lower (seg_name s) = lower search) segments")
  case None
  then have no: "\<forall>s\<in>set segments. lower (seg_name s) \<noteq> lower search"
    by (simp add: find_None_iff)
  from None no show ?thesis
    by (auto simp: find_segment_def Let_def)
next
  case (Some s)
  then have "s \<in> set segments \<and> lower (seg_name s) = lower search"
    by (auto dest: find_Some_holds)
  with Some show ?thesis
    by (auto simp: find_segment_def Let_def)
qed

text \<open>
  The scenario of the specification: among \<open>No Delta 8\<close> and \<open>No THCA\<close>, the search
  \<open>delta 8\<close> has no exact match and one substring match, \<open>no\<close> has two substring
  matches, and \<open>NO thca\<close> has an exact match.
\<close>

theorem find_segment_spec_witness:
  "find_segment ascii_lower
     [\<lparr>seg_id = ''S1'', seg_name = ''No Delta 8''\<rparr>, \<lparr>seg_id = ''S2'', seg_name = ''No THCA''\<rparr>]
     ''delta 8'' = Some \<lparr>seg_id = ''S1'', seg_name = ''No Delta 8''\<rparr>
   \<and> find_segment ascii_lower
     [\<lparr>seg_id = ''S1'', seg_name = ''No Delta 8''\<rparr>, \<lparr>seg_id = ''S2'', seg_name = ''No THCA''\<rparr>]
     ''no'' = None
   \<and> find_segment ascii_lower
     [\<lparr>seg_id = ''S1'', seg_name = ''No Delta 8''\<rparr>, \<lparr>seg_id = ''S2'', seg_name = ''No THCA''\<rparr>]
     ''NO thca'' = Some \<lparr>seg_id = ''S2'', seg_name = ''No THCA''\<rparr>"
  using find_segment_spec [of "[\<lparr>seg_id = ''S1'', seg_name = ''No Delta 8''\<rparr>,
            \<lparr>seg_id = ''S2'', seg_name = ''No THCA''\<rparr>]" ascii_lower "''delta 8''"]
        find_segment_spec [of "[\<lparr>seg_id = ''S1'', seg_name = ''No Delta 8''\<rparr>,
            \<lparr>seg_id = ''S2'', seg_name = ''No THCA''\<rparr>]" ascii_lower "''no''"]
        find_segment_spec [of "[\<lparr>seg_id = ''S1'', seg_name = ''No Delta 8''\<rparr>,
            \<lparr>seg_id = ''S2'', seg_name = ''No THCA''\<rparr>]" ascii_lower "''NO thca''"]
  by (simp add: ascii_lower_examples)

text \<open>
  \<^bold>\<open>Claim C10.\<close> If \<open>s\<close> is the first entry of the list whose lower-cased name
  equals the lower-cased search string, \<open>find_segment\<close> returns \<open>s\<close>, whatever
  follows it in the list: further exact matches in \<open>post\<close> make no difference and
  are never reported as ambiguous.
\<close>

theorem find_segment_exact_tie:
  assumes "segments = pre @ s # post"
    and "\<forall>t\<in>set pre. lower (seg_name t) \<noteq> lower search"
    and "lower (seg_name s) = lower search"
  shows "find_segment lower segments search = Some s"
proof -
  from assms have "List.find (\<lambda>s. lower (seg_name s) = lower search) segments = Some s"
    by (simp add: find_first)
  then show ?thesis
    by (simp add: find_segment_def Let_def)
qed

text \<open>Two exact matches, \<open>VIP\<close> and \<open>vip\<close>, after an entry that does not match.\<close>

theorem find_segment_exact_tie_witness:
  "find_segment ascii_lower
     [\<lparr>seg_id = ''S0'', seg_name = ''Other''\<rparr>, \<lparr>seg_id = ''S1'', seg_name = ''VIP''\<rparr>,
      \<lparr>seg_id = ''S2'', seg_name = ''vip''\<rparr>] ''Vip''
     = Some \<lparr>seg_id = ''S1'', seg_name = ''VIP''\<rparr>"
  using find_segment_exact_tie [of _ "[\<lparr>seg_id = ''S0'', seg_name = ''Other''\<rparr>]"
           "\<lparr>seg_id = ''S1'', seg_name = ''VIP''\<rparr>" "[\<lparr>seg_id = ''S2'', seg_name = ''vip''\<rparr>]"
           ascii_lower "''Vip''"]
  by (simp add: ascii_lower_examples)

section \<open>Properties of the overlap analysis\<close>

lemma fcard_inter_diff: "fcard (A |\<inter>| B) + fcard (A |-| B) = fcard A"
proof -
  have "fset A = (fset A \<inter> fset B) \<union> (fset A - fset B)"
    by blast
  moreover have "card ((fset A \<inter> fset B) \<union> (fset A - fset B))
      = card (fset A \<inter> fset B) + card (fset A - fset B)"
    by (rule card_Un_disjoint) auto
  ultimately have "card (fset A \<inter> fset B) + card (fset A - fset B) = card (fset A)"
    by simp
  then show ?thesis by (simp add: fcard.rep_eq)
qed

lemma fcard_2: "a \<noteq> b \<Longrightarrow> fcard {|a, b|} = 2"
  by (simp add: fcard_finsert_if fcard_fempty)

text \<open>
  \<^bold>\<open>Claim C3.\<close> When the sets of \<open>No Delta 8\<close> (\<open>A\<close>) and \<open>No THCA\<close> (\<open>B\<close>) were
  both fetched, the two numbers \<open>main\<close> prints for them are the sizes of the
  intersection \<open>A \<inter> B\<close> and of the difference \<open>A - B\<close>, and they add up to the
  size of \<open>A\<close>.
\<close>

theorem overlap_counts:
  assumes "segment_profiles ''No Delta 8'' = Some A"
    and "segment_profiles ''No THCA'' = Some B"
  shows "d8_and_thca (overlap_analysis segment_profiles) = Some (fcard (A |\<inter>| B))
       \<and> d8_only (overlap_analysis segment_profiles) = Some (fcard (A |-| B))
       \<and> fcard (A |\<inter>| B) + fcard (A |-| B) = fcard A"
  using assms by (simp add: overlap_analysis_def Let_def fcard_inter_diff)

text \<open>The scenario of the specification: \<open>A = {1,2,3,4}\<close> and \<open>B = {3,4,5,6}\<close>.\<close>

theorem overlap_counts_witness:
  "d8_and_thca (overlap_analysis
      [''No Delta 8'' \<mapsto> {|''1'', ''2'', ''3'', ''4''|}, ''No THCA'' \<mapsto> {|''3'', ''4'', ''5'', ''6''|}])
     = Some 2
   \<and> d8_only (overlap_analysis
      [''No Delta 8'' \<mapsto> {|''1'', ''2'', ''3'', ''4''|}, ''No THCA'' \<mapsto> {|''3'', ''4'', ''5'', ''6''|}])
     = Some 2
   \<and> fcard {|''1'', ''2'', ''3'', ''4''|} = (4::nat)"
proof -
  have i: "{|''1'', ''2'', ''3'', ''4''|} |\<inter>| {|''3'', ''4'', ''5'', ''6''|} = {|''3'', ''4''|}"
    by auto
  have d: "{|''1'', ''2'', ''3'', ''4''|} |-| {|''3'', ''4'', ''5'', ''6''|} = {|''1'', ''2''|}"
    by auto
  show ?thesis
    using overlap_counts [of "[''No Delta 8'' \<mapsto> {|''1'', ''2'', ''3'', ''4''|},
             ''No THCA'' \<mapsto> {|''3'', ''4'', ''5'', ''6''|}]"
          "{|''1'', ''2'', ''3'', ''4''|}" "{|''3'', ''4'', ''5'', ''6''|}"]
    by (simp add: i d fcard_2)
qed

section \<open>Properties of the revenue matching\<close>

text \<open>
  \<open>get_all_campaign_revenue\<close> skips a result whose message identifier is false
  (\<^verbatim>\<open>if not message_id: continue\<close>), so the dictionary it returns has no empty
  key.
\<close>

lemma revenue_loop_no_empty_key:
  "revenue_loop round2 to_int m results = Inr rd \<Longrightarrow> m [] = None \<Longrightarrow> rd [] = None"
proof (induction results arbitrary: m)
  case Nil
  then show ?case by simp
next
  case (Cons result results)
  show ?case
  proof (cases "get_message_id result = []")
    case True
    with Cons.prems have "revenue_loop round2 to_int m results = Inr rd"
      by (simp add: Let_def)
    from Cons.IH [OF this Cons.prems(2)] show ?thesis .
  next
    case False
    with Cons.prems(1) obtain e where
      "revenue_loop round2 to_int (m(get_message_id result \<mapsto> e)) results = Inr rd"
      by (auto simp: Let_def split: sum.splits)
    moreover from False Cons.prems(2) have "(m(get_message_id result \<mapsto> e)) [] = None"
      by simp
    ultimately show ?thesis by (rule Cons.IH)
  qed
qed

lemma get_all_campaign_revenue_no_empty_key:
  "get_all_campaign_revenue round2 to_int response = Inr rd \<Longrightarrow> rd [] = None"
  by (auto simp: get_all_campaign_revenue_def split: if_splits
      dest: revenue_loop_no_empty_key)

lemma foldl_match_step_out:
  "campaigns_out (foldl (match_step rd) st cs)
     = campaigns_out st @ map (\<lambda>c. fst (match_campaign rd c)) cs"
  by (induction cs arbitrary: st) (auto simp: match_step_def split: prod.splits)

lemma campaigns_out_match_revenue:
  "campaigns_out (match_revenue rd cs) = map (\<lambda>c. fst (match_campaign rd c)) cs"
  by (simp add: match_revenue_def foldl_match_step_out)

lemma zip_map_same: "(c, c') \<in> set (zip cs (map f cs)) \<Longrightarrow> c' = f c"
  by (induction cs) auto

text \<open>
  \<^bold>\<open>Claim C8.\<close> Let \<open>revenue_data\<close> be the dictionary returned by
  \<open>get_all_campaign_revenue\<close>. The matching loop of \<open>main\<close> keeps every campaign,
  in order and with its fields unchanged, and adds the two keys: revenue 0 and
  orders 0 when the message identifier of the campaign is \<^verbatim>\<open>None\<close> or is not a
  key of \<open>revenue_data\<close>, the revenue and the orders stored under the identifier
  otherwise. A campaign without a match gets no other mark.
\<close>

theorem unmatched_campaign_zero_revenue:
  assumes "get_all_campaign_revenue round2 to_int response = Inr revenue_data"
  shows "length (campaigns_out (match_revenue revenue_data campaigns)) = length campaigns
       \<and> (\<forall>(c, c')\<in>set (zip campaigns (campaigns_out (match_revenue revenue_data campaigns))).
            campaign.truncate c' = c
            \<and> (revenue c', orders c') =
                (case message_id c of
                   None \<Rightarrow> (0, 0)
                 | Some m \<Rightarrow>
                     (case revenue_data m of
                        None \<Rightarrow> (0, 0)
                      | Some e \<Rightarrow> (entry_revenue e, entry_orders e))))"
proof -
  from assms have e: "revenue_data [] = None"
    by (rule get_all_campaign_revenue_no_empty_key)
  have one: "campaign.truncate (fst (match_campaign revenue_data c)) = c
      \<and> (revenue (fst (match_campaign revenue_data c)), orders (fst (match_campaign revenue_data c))) =
          (case message_id c of
             None \<Rightarrow> (0, 0)
           | Some m \<Rightarrow>
               (case revenue_data m of
                  None \<Rightarrow> (0, 0)
                | Some e \<Rightarrow> (entry_revenue e, entry_orders e)))" for c
    using e
    by (auto simp: match_campaign_def Let_def campaign.truncate_def campaign.extend_def
        split: option.splits)
  have len: "length (campaigns_out (match_revenue revenue_data campaigns)) = length campaigns"
    by (simp add: campaigns_out_match_revenue)
  show ?thesis
  proof (rule conjI [OF len], clarify)
    fix c c'
    assume "(c, c') \<in> set (zip campaigns (campaigns_out (match_revenue revenue_data campaigns)))"
    then have "c' = fst (match_campaign revenue_data c)"
      unfolding campaigns_out_match_revenue by (rule zip_map_same)
    with one [of c] show "campaign.truncate c' = c
            \<and> (revenue c', orders c') =
                (case message_id c of
                   None \<Rightarrow> (0, 0)
                 | Some m \<Rightarrow>
                     (case revenue_data m of
                        None \<Rightarrow> (0, 0)
                      | Some e \<Rightarrow> (entry_revenue e, entry_orders e)))"
      by simp
  qed
qed

text \<open>
  One attributed message \<open>M1\<close> (a second result has no dimension and is
  skipped), and three campaigns: one matched, one without a message identifier,
  one whose message identifier has no revenue.
\<close>

theorem unmatched_campaign_zero_revenue_witness:
  "get_all_campaign_revenue (\<lambda>x. x) floor
      \<lparr>agg_status = 200, agg_results =
       [\<lparr>agg_dimensions = Some (DimList [''M1'']),
         agg_measurements =
           Some \<lparr>sum_value = Some (MList [25 / 2]), count_value = Some (MList [1])\<rparr>\<rparr>,
        \<lparr>agg_dimensions = Some (DimList []),
         agg_measurements =
           Some \<lparr>sum_value = Some (MList [7]), count_value = Some (MList [2])\<rparr>\<rparr>]\<rparr>
     = Inr [''M1'' \<mapsto> \<lparr>entry_revenue = 25 / 2, entry_orders = 1\<rparr>]
   \<and> map (\<lambda>c. (campaign_id c, revenue c, orders c))
       (campaigns_out (match_revenue [''M1'' \<mapsto> \<lparr>entry_revenue = 25 / 2, entry_orders = 1\<rparr>]
       [\<lparr>campaign_id = ''C1'', campaign_name = ''Spring sale'', subject = ''Hello'',
          send_time = ''2025-01-01'', message_id = Some ''M1''\<rparr>,
        \<lparr>campaign_id = ''C2'', campaign_name = ''Summer sale'', subject = ''Hi'',
          send_time = ''2025-02-01'', message_id = None\<rparr>,
        \<lparr>campaign_id = ''C3'', campaign_name = ''Autumn sale'', subject = ''Hey'',
          send_time = ''2025-03-01'', message_id = Some ''M9''\<rparr>]))
     = [(''C1'', 25 / 2, 1), (''C2'', 0, 0), (''C3'', 0, 0)]"
proof -
  have rd: "get_all_campaign_revenue (\<lambda>x. x) floor
      \<lparr>agg_status = 200, agg_results =
       [\<lparr>agg_dimensions = Some (DimList [''M1'']),
         agg_measurements =
           Some \<lparr>sum_value = Some (MList [25 / 2]), count_value = Some (MList [1])\<rparr>\<rparr>,
        \<lparr>agg_dimensions = Some (DimList []),
         agg_measurements =
           Some \<lparr>sum_value = Some (MList [7]), count_value = Some (MList [2])\<rparr>\<rparr>]\<rparr>
     = Inr [''M1'' \<mapsto> \<lparr>entry_revenue = 25 / 2, entry_orders = 1\<rparr>]"
    by (simp add: get_all_campaign_revenue_def get_message_id_def first_or_value_def
        get_sum_value_def get_count_def or_zero_def)
  show ?thesis
    using rd unmatched_campaign_zero_revenue [OF rd, of
       "[\<lparr>campaign_id = ''C1'', campaign_name = ''Spring sale'', subject = ''Hello'',
          send_time = ''2025-01-01'', message_id = Some ''M1''\<rparr>,
        \<lparr>campaign_id = ''C2'', campaign_name = ''Summer sale'', subject = ''Hi'',
          send_time = ''2025-02-01'', message_id = None\<rparr>,
        \<lparr>campaign_id = ''C3'', campaign_name = ''Autumn sale'', subject = ''Hey'',
          send_time = ''2025-03-01'', message_id = Some ''M9''\<rparr>]"]
    by (simp add: match_revenue_def match_step_def match_campaign_def campaign.extend_def)
qed

end
